theory Spec2Isabelle
  imports Main
begin

section \<open>Values exchanged with the program\<close>

text \<open>
  The interface \<open>VideoMetadata\<close> of lib/database.ts. The interface declares every field as
  required, yet \<open>storeVideo\<close> itself guards \<open>publishedDate\<close> and \<open>durationInSeconds\<close> with
  \<open>|| null\<close>: the records come from an HTTP API and a field can be missing at run time.
  A field that is \<open>undefined\<close> or \<open>null\<close> is \<open>None\<close>. The key \<open>id\<close> is always a string.
  A JavaScript number is modelled by an integer (the column it goes to is \<open>INTEGER\<close>);
  \<open>NaN\<close> is falsy like \<open>0\<close> and is not told apart from an absent value.
\<close>

record VideoMetadata =
  id' :: string
  title :: "string option"
  description :: "string option"
  publishedDate :: "string option"
  durationInSeconds :: "int option"
  viewCount :: int
  url :: string

text \<open>A JSON value, as \<open>JSON.stringify\<close> accepts it and a \<open>JSONB\<close> column holds it.\<close>

datatype json =
    JNull
  | JBool bool
  | JNum int
  | JStr string
  | JArr "json list"
  | JObj "(string \<times> json) list"

text \<open>
  \<open>AnalysisResult\<close> is declared in lib/ollama, which is not among the sources; its fields
  are the ones \<open>storeAnalysis\<close> reads. The five text fields go to \<open>TEXT\<close> columns, the four
  others are tested for truthiness and serialised.
\<close>

record AnalysisResult =
  video_type :: "string option"
  name :: "string option"
  age :: "string option"
  sex :: "string option"
  location :: "string option"
  symptoms :: "json option"
  medicalHistoryOfPatient :: "json option"
  familyMedicalHistory :: "json option"
  challengesFacedDuringDiagnosis :: "json option"
  key_opinion :: "string option"

subsection \<open>JavaScript truthiness\<close>

text \<open>\<open>x || null\<close> on a string: the empty string is falsy.\<close>

definition or_null_str :: "string option \<Rightarrow> string option" where
  "or_null_str x = (case x of None \<Rightarrow> None | Some v \<Rightarrow> if v = [] then None else Some v)"

text \<open>\<open>x || null\<close> on a number: zero is falsy.\<close>

definition or_null_num :: "int option \<Rightarrow> int option" where
  "or_null_num x = (case x of None \<Rightarrow> None | Some v \<Rightarrow> if v = 0 then None else Some v)"

text \<open>\<open>x || ""\<close> and \<open>x || 0\<close>, the defaults of \<open>getVideoMetadata\<close>.\<close>

definition or_empty :: "string option \<Rightarrow> string" where
  "or_empty x = (case x of None \<Rightarrow> [] | Some v \<Rightarrow> if v = [] then [] else v)"

definition or_zero :: "int option \<Rightarrow> int" where
  "or_zero x = (case x of None \<Rightarrow> 0 | Some v \<Rightarrow> if v = 0 then 0 else v)"

fun truthy :: "json \<Rightarrow> bool" where
  "truthy JNull = False"
| "truthy (JBool b) = b"
| "truthy (JNum n) = (n \<noteq> 0)"
| "truthy (JStr s) = (s \<noteq> [])"
| "truthy (JArr xs) = True"
| "truthy (JObj kvs) = True"

text \<open>
  \<open>x ? JSON.stringify(x) : null\<close>. The column is \<open>JSONB\<close>: the engine parses the text again,
  so the cell holds the JSON value itself.
\<close>

definition stringify_or_null :: "json option \<Rightarrow> json option" where
  "stringify_or_null x = (case x of None \<Rightarrow> None | Some v \<Rightarrow> if truthy v then Some v else None)"

section \<open>The relational store\<close>

text \<open>
  The three tables of \<open>initializeDatabase\<close>, each a list of rows. The order of the rows
  is the one a \<open>SELECT\<close> without \<open>ORDER BY\<close> returns; no statement about it is made.
  \<open>published_date\<close> holds the text the engine accepted as a timestamp. The surrogate key
  \<open>transcript_id SERIAL\<close> of \<open>transcripts\<close> and its sequence are left out: the engine fills
  the column and no statement of the program reads or writes it.
\<close>

record video_row =
  video_id :: string
  title_c :: string
  description_c :: "string option"
  published_date :: "string option"
  duration_seconds :: "int option"
  url_c :: string

record transcript_row =
  video_id_t :: string
  full_transcript :: string
  language :: string

record analysis_row =
  video_id_a :: string
  video_type_c :: "string option"
  name_c :: "string option"
  age_c :: "string option"
  sex_c :: "string option"
  location_c :: "string option"
  symptoms_c :: "json option"
  medical_history_of_patient :: "json option"
  family_medical_history :: "json option"
  challenges_faced_during_diagnosis :: "json option"
  key_opinion_c :: "string option"

record database =
  videos :: "video_row list"
  transcripts :: "transcript_row list"
  analysis :: "analysis_row list"

datatype error =
    ConnectionError string
  | RetriesExhausted
  | InvalidByteSequence
  | UnsupportedUnicodeEscape
  | ValueTooLong
  | InvalidTimestamp
  | IntegerOutOfRange
  | NotNullViolation
  | ForeignKeyViolation
  | FetchError string
  | WriteFileError

text \<open>
  What the program reads from the world. \<open>connect k\<close> is the outcome of the \<open>k\<close>-th
  connection attempt of the process (\<open>new Pool\<close> followed by \<open>SELECT 1\<close>): \<open>None\<close> when both
  succeed, \<open>Some msg\<close> when one of them throws an error with that message.
  \<open>timestamp_ok\<close> says which texts the engine accepts for a \<open>TIMESTAMP\<close> column.
  \<open>getVideoDetails\<close> and \<open>searchDiseaseVideos\<close> are the fetch service of lib/youtube-service
  and lib/youtube (\<open>Inl\<close> when the call throws); \<open>parseInt\<close> is the JavaScript builtin (\<open>None\<close>
  is \<open>NaN\<close>); \<open>writeFile_ok\<close> says for which paths \<open>fs.writeFile\<close> succeeds.
\<close>

record env =
  connect :: "nat \<Rightarrow> string option"
  timestamp_ok :: "string \<Rightarrow> bool"
  getVideoDetails :: "string \<Rightarrow> string + VideoMetadata option"
  searchDiseaseVideos :: "string \<Rightarrow> int \<Rightarrow> string + VideoMetadata list"
  parseInt :: "string \<Rightarrow> int option"
  writeFile_ok :: "string \<Rightarrow> bool"

subsection \<open>The statements\<close>

text \<open>
  What the engine does with the parameters of a statement, in this order. When the
  statement is bound, every parameter is converted to the type of its column, one after
  the other: a text with a NUL character is refused (\<open>invalid byte sequence\<close>), and so are
  a text that is no timestamp, a number outside the 32-bit range and, for a \<open>JSONB\<close>
  column, a JSON text with the escape of a NUL character in one of its strings. When the
  statement runs, a text is fitted to its \<open>VARCHAR(n)\<close> column: a longer text is refused,
  unless all that exceeds \<open>n\<close> characters is spaces, which are then cut off. Then \<open>NOT NULL\<close>
  is checked, then the row with the same key is looked for. A failed statement leaves the
  tables as they were. The length of a text is its number of characters.
\<close>

definition no_nul :: "string \<Rightarrow> bool" where
  "no_nul t = (CHR 0x00 \<notin> set t)"

definition text_ok :: "string option \<Rightarrow> bool" where
  "text_ok x = (case x of None \<Rightarrow> True | Some t \<Rightarrow> no_nul t)"

definition varchar :: "nat \<Rightarrow> string \<Rightarrow> string option" where
  "varchar n t =
     (if length t \<le> n then Some t
      else if list_all (\<lambda>c. c = CHR '' '') (drop n t) then Some (take n t)
      else None)"

definition int4_ok :: "int option \<Rightarrow> bool" where
  "int4_ok x = (case x of None \<Rightarrow> True | Some n \<Rightarrow> - 2147483648 \<le> n \<and> n \<le> 2147483647)"

definition timestamp_param_ok :: "env \<Rightarrow> string option \<Rightarrow> bool" where
  "timestamp_param_ok e x = (case x of None \<Rightarrow> True | Some t \<Rightarrow> timestamp_ok e t)"

text \<open>
  \<open>JSON.stringify\<close> writes a NUL character of a string or of a key as an escape, which the
  \<open>JSONB\<close> input refuses.
\<close>

fun jsonb_ok :: "json \<Rightarrow> bool" where
  "jsonb_ok JNull = True"
| "jsonb_ok (JBool b) = True"
| "jsonb_ok (JNum n) = True"
| "jsonb_ok (JStr t) = no_nul t"
| "jsonb_ok (JArr xs) = (\<forall>x\<in>set xs. jsonb_ok x)"
| "jsonb_ok (JObj kvs) = (\<forall>kv\<in>set kvs. no_nul (fst kv) \<and> jsonb_ok (snd kv))"

definition jsonb_param_ok :: "json option \<Rightarrow> bool" where
  "jsonb_param_ok x = (case x of None \<Rightarrow> True | Some v \<Rightarrow> jsonb_ok v)"

text \<open>
  \<open>INSERT INTO videos (...) VALUES ($1, ..., $6) ON CONFLICT (video_id) DO UPDATE
  SET title = $2, description = $3, published_date = $4, duration_seconds = $5, url = $6\<close>.
  \<open>video_values\<close> is the row the engine makes of the six parameters, or the error it
  raises; \<open>put_video\<close> is what the statement then does to the table: the row with the key
  is overwritten in place, or the new row is added.
\<close>

definition video_values ::
  "env \<Rightarrow> string \<Rightarrow> string option \<Rightarrow> string option \<Rightarrow> string option \<Rightarrow> int option
     \<Rightarrow> string option \<Rightarrow> error + video_row" where
  "video_values e p1 p2 p3 p4 p5 p6 =
     (if \<not> no_nul p1 \<or> \<not> text_ok p2 \<or> \<not> text_ok p3 \<or> \<not> text_ok p4
      then Inl InvalidByteSequence
      else if \<not> timestamp_param_ok e p4 then Inl InvalidTimestamp
      else if \<not> int4_ok p5 then Inl IntegerOutOfRange
      else if \<not> text_ok p6 then Inl InvalidByteSequence
      else case varchar 255 p1 of
        None \<Rightarrow> Inl ValueTooLong
      | Some k \<Rightarrow>
          (case p2 of
            None \<Rightarrow> Inl NotNullViolation
          | Some t \<Rightarrow>
              (case p6 of
                None \<Rightarrow> Inl NotNullViolation
              | Some u \<Rightarrow>
                  Inr \<lparr>video_id = k, title_c = t, description_c = p3, published_date = p4,
                       duration_seconds = p5, url_c = u\<rparr>)))"

definition put_video :: "video_row \<Rightarrow> database \<Rightarrow> database" where
  "put_video new d =
     (if list_ex (\<lambda>r. video_id r = video_id new) (videos d)
      then d\<lparr>videos :=
             map (\<lambda>r. if video_id r = video_id new
                       then r\<lparr>title_c := title_c new, description_c := description_c new,
                              published_date := published_date new,
                              duration_seconds := duration_seconds new, url_c := url_c new\<rparr>
                       else r) (videos d)\<rparr>
      else d\<lparr>videos := videos d @ [new]\<rparr>)"

definition upsert_video ::
  "env \<Rightarrow> string \<Rightarrow> string option \<Rightarrow> string option \<Rightarrow> string option \<Rightarrow> int option
     \<Rightarrow> string option \<Rightarrow> database \<Rightarrow> error + database" where
  "upsert_video e p1 p2 p3 p4 p5 p6 d =
     (case video_values e p1 p2 p3 p4 p5 p6 of
        Inl err \<Rightarrow> Inl err
      | Inr new \<Rightarrow> Inr (put_video new d))"

text \<open>
  \<open>INSERT INTO transcripts (video_id, full_transcript, language) VALUES ($1, $2, $3)
  ON CONFLICT (video_id) DO UPDATE SET full_transcript = $2, language = $3\<close>.
  The update leaves \<open>video_id\<close> as it is, so only a new row is checked against \<open>videos\<close>.
\<close>

definition transcript_values :: "string \<Rightarrow> string \<Rightarrow> string \<Rightarrow> error + transcript_row" where
  "transcript_values p1 p2 p3 =
     (if \<not> no_nul p1 \<or> \<not> no_nul p2 \<or> \<not> no_nul p3 then Inl InvalidByteSequence
      else case varchar 255 p1 of
        None \<Rightarrow> Inl ValueTooLong
      | Some k \<Rightarrow>
          (case varchar 10 p3 of
            None \<Rightarrow> Inl ValueTooLong
          | Some l \<Rightarrow> Inr \<lparr>video_id_t = k, full_transcript = p2, language = l\<rparr>))"

definition put_transcript :: "transcript_row \<Rightarrow> database \<Rightarrow> error + database" where
  "put_transcript new d =
     (if list_ex (\<lambda>r. video_id_t r = video_id_t new) (transcripts d)
      then Inr (d\<lparr>transcripts :=
             map (\<lambda>r. if video_id_t r = video_id_t new
                       then r\<lparr>full_transcript := full_transcript new, language := language new\<rparr>
                       else r)
               (transcripts d)\<rparr>)
      else if list_ex (\<lambda>v. video_id v = video_id_t new) (videos d)
      then Inr (d\<lparr>transcripts := transcripts d @ [new]\<rparr>)
      else Inl ForeignKeyViolation)"

definition upsert_transcript :: "string \<Rightarrow> string \<Rightarrow> string \<Rightarrow> database \<Rightarrow> error + database" where
  "upsert_transcript p1 p2 p3 d =
     (case transcript_values p1 p2 p3 of
        Inl err \<Rightarrow> Inl err
      | Inr new \<Rightarrow> put_transcript new d)"

text \<open>
  \<open>INSERT INTO analysis (...) VALUES ($1, ..., $11) ON CONFLICT (video_id) DO UPDATE SET\<close>
  every other column to the excluded row's. The eleven parameters are given as a row.
\<close>

definition analysis_values :: "analysis_row \<Rightarrow> error + analysis_row" where
  "analysis_values params =
     (if \<not> no_nul (video_id_a params) \<or> \<not> text_ok (video_type_c params) \<or>
         \<not> text_ok (name_c params) \<or> \<not> text_ok (age_c params) \<or> \<not> text_ok (sex_c params) \<or>
         \<not> text_ok (location_c params)
      then Inl InvalidByteSequence
      else if \<not> jsonb_param_ok (symptoms_c params) \<or>
         \<not> jsonb_param_ok (medical_history_of_patient params) \<or>
         \<not> jsonb_param_ok (family_medical_history params) \<or>
         \<not> jsonb_param_ok (challenges_faced_during_diagnosis params)
      then Inl UnsupportedUnicodeEscape
      else if \<not> text_ok (key_opinion_c params) then Inl InvalidByteSequence
      else case varchar 255 (video_id_a params) of
        None \<Rightarrow> Inl ValueTooLong
      | Some k \<Rightarrow> Inr (params\<lparr>video_id_a := k\<rparr>))"

definition put_analysis :: "analysis_row \<Rightarrow> database \<Rightarrow> error + database" where
  "put_analysis new d =
     (if list_ex (\<lambda>r. video_id_a r = video_id_a new) (analysis d)
      then Inr (d\<lparr>analysis :=
             map (\<lambda>r. if video_id_a r = video_id_a new then new else r) (analysis d)\<rparr>)
      else if list_ex (\<lambda>v. video_id v = video_id_a new) (videos d)
      then Inr (d\<lparr>analysis := analysis d @ [new]\<rparr>)
      else Inl ForeignKeyViolation)"

definition upsert_analysis :: "analysis_row \<Rightarrow> database \<Rightarrow> error + database" where
  "upsert_analysis params d =
     (case analysis_values params of
        Inl err \<Rightarrow> Inl err
      | Inr new \<Rightarrow> put_analysis new d)"

section \<open>lib/database.ts\<close>

text \<open>
  What the process does to the world, in order. The diagnostics of \<open>safeLog\<close> are left
  out, but for the two of the store loop of the command line, which tell a stored record
  from a failed one.
\<close>

datatype event =
    EConnect
  | EDelay nat
  | ECreateTable string
  | EGetVideoDetails string
  | ESearchDiseaseVideos string int
  | EStoreVideo string
  | ELogStored string
  | ELogStoreError string
  | EWriteFile string "VideoMetadata list"
  | EWriteIdsFile string "string list"
  | EStdout VideoMetadata

text \<open>
  The state of the process and of the store it talks to. \<open>pool\<close> is the module variable:
  \<open>None\<close> for \<open>null\<close>, \<open>Some k\<close> for the pool that the \<open>k\<close>-th connection attempt created.
  \<open>conn_attempts\<close> counts the connection attempts made so far.
\<close>

record proc =
  pool :: "nat option"
  conn_attempts :: nat
  db :: database
  trace :: "event list"

definition emit :: "event \<Rightarrow> proc \<Rightarrow> proc" where
  "emit ev s = s\<lparr>trace := trace s @ [ev]\<rparr>"

text \<open>
  The loop of \<open>connectWithRetry(retries, retryInterval)\<close>, from the value \<open>attempt\<close> of its
  counter. The result is the new pool, or the error thrown.
\<close>

function connect_loop :: "env \<Rightarrow> nat \<Rightarrow> nat \<Rightarrow> nat \<Rightarrow> proc \<Rightarrow> (error + nat) \<times> proc" where
  "connect_loop e retries retryInterval attempt s =
     (if attempt < retries then
        (let k = conn_attempts s;
             s1 = emit EConnect (s\<lparr>conn_attempts := Suc k\<rparr>)
         in case connect e k of
              None \<Rightarrow> (Inr k, s1)
            | Some msg \<Rightarrow>
                if retries \<le> Suc attempt then (Inl (ConnectionError msg), s1)
                else connect_loop e retries retryInterval (Suc attempt) (emit (EDelay retryInterval) s1))
      else (Inl RetriesExhausted, s))"
  by pat_completeness auto
termination
  by (relation "measure (\<lambda>(e, retries, retryInterval, attempt, s). retries - attempt)") auto

definition connectWithRetry :: "env \<Rightarrow> nat \<Rightarrow> nat \<Rightarrow> proc \<Rightarrow> (error + nat) \<times> proc" where
  "connectWithRetry e retries retryInterval s = connect_loop e retries retryInterval 0 s"

text \<open>
  The three \<open>CREATE TABLE IF NOT EXISTS\<close>. A table that does not exist yet is an empty
  list of rows, so the statements leave \<open>db\<close> as it is.
\<close>

definition create_tables :: "proc \<Rightarrow> proc" where
  "create_tables s =
     emit (ECreateTable ''analysis'') (emit (ECreateTable ''transcripts'') (emit (ECreateTable ''videos'') s))"

definition initializeDatabase :: "env \<Rightarrow> proc \<Rightarrow> (error + unit) \<times> proc" where
  "initializeDatabase e s =
     (case pool s of
        Some p \<Rightarrow> (Inr (), create_tables s)
      | None \<Rightarrow>
          (case connectWithRetry e 5 2000 s of
             (Inl err, s1) \<Rightarrow> (Inl err, s1)
           | (Inr p, s1) \<Rightarrow> (Inr (), create_tables (s1\<lparr>pool := Some p\<rparr>))))"

text \<open>\<open>if (!pool) await initializeDatabase();\<close>, the first line of every operation.\<close>

definition ensure_pool :: "env \<Rightarrow> proc \<Rightarrow> (error + unit) \<times> proc" where
  "ensure_pool e s = (case pool s of Some p \<Rightarrow> (Inr (), s) | None \<Rightarrow> initializeDatabase e s)"

text \<open>
  Runs a statement on the store; an error is thrown on to the caller. Once the pool
  exists a statement fails only when the engine rejects it: a connection that is lost
  later is outside the model.
\<close>

definition run_statement :: "(database \<Rightarrow> error + database) \<Rightarrow> proc \<Rightarrow> (error + unit) \<times> proc" where
  "run_statement q s = (case q (db s) of Inl err \<Rightarrow> (Inl err, s) | Inr d \<Rightarrow> (Inr (), s\<lparr>db := d\<rparr>))"

definition canonical_url :: "string \<Rightarrow> string" where
  "canonical_url i = ''https://youtube.com/watch?v='' @ i"

definition storeVideo :: "env \<Rightarrow> VideoMetadata \<Rightarrow> proc \<Rightarrow> (error + unit) \<times> proc" where
  "storeVideo e metadata s =
     (case ensure_pool e s of
        (Inl err, s1) \<Rightarrow> (Inl err, s1)
      | (Inr u, s1) \<Rightarrow>
          run_statement
            (upsert_video e (id' metadata) (title metadata) (description metadata)
               (or_null_str (publishedDate metadata)) (or_null_num (durationInSeconds metadata))
               (Some (canonical_url (id' metadata))))
            s1)"

text \<open>\<open>language\<close> is the parameter with the default \<open>'en'\<close>: \<open>None\<close> when the caller leaves it out.\<close>

definition storeTranscript ::
  "env \<Rightarrow> string \<Rightarrow> string \<Rightarrow> string option \<Rightarrow> proc \<Rightarrow> (error + unit) \<times> proc" where
  "storeTranscript e videoId transcript lang s =
     (case ensure_pool e s of
        (Inl err, s1) \<Rightarrow> (Inl err, s1)
      | (Inr u, s1) \<Rightarrow>
          run_statement
            (upsert_transcript videoId transcript (case lang of None \<Rightarrow> ''en'' | Some l \<Rightarrow> l)) s1)"

definition getTranscript :: "env \<Rightarrow> string \<Rightarrow> proc \<Rightarrow> (error + (string \<times> string) option) \<times> proc" where
  "getTranscript e videoId s =
     (case ensure_pool e s of
        (Inl err, s1) \<Rightarrow> (Inl err, s1)
      | (Inr u, s1) \<Rightarrow>
          if \<not> no_nul videoId then (Inl InvalidByteSequence, s1)
          else
            (case filter (\<lambda>r. video_id_t r = videoId) (transcripts (db s1)) of
               [] \<Rightarrow> (Inr None, s1)
             | r # rest \<Rightarrow> (Inr (Some (full_transcript r, language r)), s1)))"

definition getVideoMetadata :: "env \<Rightarrow> string \<Rightarrow> proc \<Rightarrow> (error + VideoMetadata option) \<times> proc" where
  "getVideoMetadata e videoId s =
     (case ensure_pool e s of
        (Inl err, s1) \<Rightarrow> (Inl err, s1)
      | (Inr u, s1) \<Rightarrow>
          if \<not> no_nul videoId then (Inl InvalidByteSequence, s1)
          else
            (case filter (\<lambda>r. video_id r = videoId) (videos (db s1)) of
               [] \<Rightarrow> (Inr None, s1)
             | row # rest \<Rightarrow>
                 (Inr (Some \<lparr>id' = video_id row, title = Some (title_c row),
                             description = description_c row,
                             publishedDate = Some (or_empty (published_date row)),
                             durationInSeconds = Some (or_zero (duration_seconds row)),
                             viewCount = 0, url = url_c row\<rparr>), s1)))"

definition analysis_params :: "string \<Rightarrow> AnalysisResult \<Rightarrow> analysis_row" where
  "analysis_params videoId a =
     \<lparr>video_id_a = videoId, video_type_c = video_type a, name_c = name a, age_c = age a,
      sex_c = sex a, location_c = location a,
      symptoms_c = stringify_or_null (symptoms a),
      medical_history_of_patient = stringify_or_null (medicalHistoryOfPatient a),
      family_medical_history = stringify_or_null (familyMedicalHistory a),
      challenges_faced_during_diagnosis = stringify_or_null (challengesFacedDuringDiagnosis a),
      key_opinion_c = key_opinion a\<rparr>"

definition storeAnalysis :: "env \<Rightarrow> string \<Rightarrow> AnalysisResult \<Rightarrow> proc \<Rightarrow> (error + unit) \<times> proc" where
  "storeAnalysis e videoId a s =
     (case ensure_pool e s of
        (Inl err, s1) \<Rightarrow> (Inl err, s1)
      | (Inr u, s1) \<Rightarrow> run_statement (upsert_analysis (analysis_params videoId a)) s1)"

definition getAllVideoIds :: "env \<Rightarrow> proc \<Rightarrow> (error + string list) \<times> proc" where
  "getAllVideoIds e s =
     (case ensure_pool e s of
        (Inl err, s1) \<Rightarrow> (Inl err, s1)
      | (Inr u, s1) \<Rightarrow> (Inr (map video_id (videos (db s1))), s1))"

section \<open>bin/youtube-fetcher.ts\<close>

text \<open>
  The options of the command line. \<open>maxResults\<close> is \<open>None\<close> when the flag was not given
  and when \<open>parseInt\<close> returned \<open>NaN\<close>: the program only ever reads \<open>maxResults || 1000\<close>.
\<close>

record Options =
  disease :: "string option"
  maxResults :: "int option"
  outputFile :: "string option"
  videoIdsFile :: "string option"
  videoId :: "string option"

definition no_options :: Options where
  "no_options =
     \<lparr>disease = None, maxResults = None, outputFile = None, videoIdsFile = None, videoId = None\<rparr>"

text \<open>A string option in a condition: \<open>undefined\<close> and the empty string are falsy.\<close>

definition given :: "string option \<Rightarrow> bool" where
  "given x = (case x of None \<Rightarrow> False | Some v \<Rightarrow> v \<noteq> [])"

text \<open>
  The loop over \<open>args\<close>: a flag counts only when an argument follows it, and that
  argument is then skipped.
\<close>

fun parseArgs :: "env \<Rightarrow> string list \<Rightarrow> Options \<Rightarrow> Options" where
  "parseArgs e [] opts = opts"
| "parseArgs e [a] opts = opts"
| "parseArgs e (a # b # rest) opts =
     (if a = ''--disease'' then parseArgs e rest (opts\<lparr>disease := Some b\<rparr>)
      else if a = ''--max-results'' then parseArgs e rest (opts\<lparr>maxResults := parseInt e b\<rparr>)
      else if a = ''--output-file'' then parseArgs e rest (opts\<lparr>outputFile := Some b\<rparr>)
      else if a = ''--video-ids-file'' then parseArgs e rest (opts\<lparr>videoIdsFile := Some b\<rparr>)
      else if a = ''--video-id'' then parseArgs e rest (opts\<lparr>videoId := Some b\<rparr>)
      else parseArgs e (b # rest) opts)"

text \<open>
  The fetch phase. \<open>Inl ()\<close>: the run is over with exit code 1, because the service threw
  (caught at the end of \<open>main\<close>) or had no record for the video. In the search branch
  \<open>options.disease!\<close> is a non-empty string, \<open>main\<close> having left otherwise.
\<close>

definition fetch_videos :: "env \<Rightarrow> Options \<Rightarrow> proc \<Rightarrow> (unit + VideoMetadata list) \<times> proc" where
  "fetch_videos e options s =
     (if given (videoId options) then
        (let v = or_empty (videoId options); s1 = emit (EGetVideoDetails v) s
         in case getVideoDetails e v of
              Inl msg \<Rightarrow> (Inl (), s1)
            | Inr None \<Rightarrow> (Inl (), s1)
            | Inr (Some video) \<Rightarrow> (Inr [video], s1))
      else
        (let d = or_empty (disease options);
             n = (case or_null_num (maxResults options) of None \<Rightarrow> 1000 | Some m \<Rightarrow> m);
             s1 = emit (ESearchDiseaseVideos d n) s
         in case searchDiseaseVideos e d n of
              Inl msg \<Rightarrow> (Inl (), s1)
            | Inr found \<Rightarrow> (Inr found, s1)))"

fun collect :: "VideoMetadata list \<Rightarrow> VideoMetadata list \<Rightarrow> VideoMetadata list" where
  "collect [] outputData = outputData"
| "collect (video # rest) outputData = collect rest (outputData @ [video])"

text \<open>The store loop: an error of \<open>storeVideo\<close> is caught and logged, and the loop goes on.\<close>

fun store_loop :: "env \<Rightarrow> VideoMetadata list \<Rightarrow> proc \<Rightarrow> proc" where
  "store_loop e [] s = s"
| "store_loop e (video # rest) s =
     (case storeVideo e video (emit (EStoreVideo (id' video)) s) of
        (Inr u, s1) \<Rightarrow> store_loop e rest (emit (ELogStored (id' video)) s1)
      | (Inl err, s1) \<Rightarrow> store_loop e rest (emit (ELogStoreError (id' video)) s1))"

fun stdout_loop :: "VideoMetadata list \<Rightarrow> proc \<Rightarrow> proc" where
  "stdout_loop [] s = s"
| "stdout_loop (data # rest) s = stdout_loop rest (emit (EStdout data) s)"

text \<open>The output phase; a failing \<open>fs.writeFile\<close> throws and writes nothing.\<close>

definition output_phase ::
  "env \<Rightarrow> Options \<Rightarrow> VideoMetadata list \<Rightarrow> proc \<Rightarrow> (error + unit) \<times> proc" where
  "output_phase e options outputData s =
     (if given (outputFile options) \<and> \<not> writeFile_ok e (or_empty (outputFile options))
      then (Inl WriteFileError, s)
      else
        (let s1 = (if given (outputFile options)
                   then emit (EWriteFile (or_empty (outputFile options)) outputData) s else s)
         in if given (videoIdsFile options) \<and> \<not> writeFile_ok e (or_empty (videoIdsFile options))
            then (Inl WriteFileError, s1)
            else
              (let s2 = (if given (videoIdsFile options)
                         then emit (EWriteIdsFile (or_empty (videoIdsFile options))
                                      (map id' outputData)) s1
                         else s1)
               in if \<not> given (outputFile options) \<and> \<not> given (videoIdsFile options)
                  then (Inr (), stdout_loop outputData s2)
                  else (Inr (), s2))))"

text \<open>\<open>main\<close>, with the exit code of the process as its result.\<close>

definition main :: "env \<Rightarrow> string list \<Rightarrow> proc \<Rightarrow> nat \<times> proc" where
  "main e args s =
     (let options = parseArgs e args no_options
      in if \<not> given (disease options) \<and> \<not> given (videoId options) then (1, s)
         else
           (case initializeDatabase e s of
              (Inl err, s1) \<Rightarrow> (1, s1)
            | (Inr u, s1) \<Rightarrow>
                (case fetch_videos e options s1 of
                   (Inl u, s2) \<Rightarrow> (1, s2)
                 | (Inr found, s2) \<Rightarrow>
                     (let outputData = collect found []
                      in if length outputData = 0 then (1, s2)
                         else
                           (case output_phase e options outputData (store_loop e outputData s2) of
                              (Inl err, s4) \<Rightarrow> (1, s4)
                            | (Inr u, s4) \<Rightarrow> (0, s4))))))"

section \<open>Notions the properties are stated with\<close>

text \<open>
  The events of \<open>n\<close> connection attempts in a row, with a delay of \<open>i\<close> milliseconds before
  every attempt but the first.
\<close>

fun attempts_events :: "nat \<Rightarrow> nat \<Rightarrow> event list" where
  "attempts_events i 0 = []"
| "attempts_events i (Suc 0) = [EConnect]"
| "attempts_events i (Suc (Suc n)) = EConnect # EDelay i # attempts_events i (Suc n)"

text \<open>
  The store can be reached: the pool exists, or one of the next five connection attempts
  succeeds.
\<close>

definition db_available :: "env \<Rightarrow> proc \<Rightarrow> bool" where
  "db_available e s =
     (pool s \<noteq> None \<or> list_ex (\<lambda>j. connect e (conn_attempts s + j) = None) [0..<5])"

text \<open>
  A record whose values the \<open>videos\<close> table accepts: exactly the records for which the
  statement of \<open>storeVideo\<close> raises no error.
\<close>

definition valid_metadata :: "env \<Rightarrow> VideoMetadata \<Rightarrow> bool" where
  "valid_metadata e m =
     (no_nul (id' m) \<and> varchar 255 (id' m) \<noteq> None \<and>
      (case title m of None \<Rightarrow> False | Some t \<Rightarrow> no_nul t) \<and>
      text_ok (description m) \<and>
      text_ok (or_null_str (publishedDate m)) \<and>
      timestamp_param_ok e (or_null_str (publishedDate m)) \<and>
      int4_ok (or_null_num (durationInSeconds m)))"

text \<open>
  The row that \<open>storeVideo\<close> writes for a valid record with title \<open>t\<close>. Its key is the ID,
  cut to 255 characters.
\<close>

definition video_params :: "VideoMetadata \<Rightarrow> string \<Rightarrow> video_row" where
  "video_params m t =
     \<lparr>video_id = take 255 (id' m), title_c = t, description_c = description m,
      published_date = or_null_str (publishedDate m),
      duration_seconds = or_null_num (durationInSeconds m),
      url_c = canonical_url (id' m)\<rparr>"

text \<open>
  The constraints of the schema that every state of the store satisfies: the keys are
  unique, and a transcript or an analysis belongs to a video.
\<close>

definition wf_db :: "database \<Rightarrow> bool" where
  "wf_db d =
     (distinct (map video_id (videos d)) \<and>
      distinct (map video_id_t (transcripts d)) \<and>
      distinct (map video_id_a (analysis d)) \<and>
      list_all (\<lambda>r. list_ex (\<lambda>v. video_id v = video_id_t r) (videos d)) (transcripts d) \<and>
      list_all (\<lambda>r. list_ex (\<lambda>v. video_id v = video_id_a r) (videos d)) (analysis d))"

text \<open>
  What a call of \<open>storeVideo\<close> leaves of the store: the row of the record upserted when
  the record is valid, the store as it was otherwise. Then the events of one round of the
  store loop, and the condition under which a write of the output phase fails.
\<close>

definition store_or_skip :: "env \<Rightarrow> VideoMetadata \<Rightarrow> database \<Rightarrow> database" where
  "store_or_skip e v d =
     (case title v of
        Some t \<Rightarrow> if valid_metadata e v then put_video (video_params v t) d else d
      | None \<Rightarrow> d)"

definition store_events :: "env \<Rightarrow> VideoMetadata \<Rightarrow> event list" where
  "store_events e v =
     [EStoreVideo (id' v),
      if valid_metadata e v then ELogStored (id' v) else ELogStoreError (id' v)]"

definition write_fails :: "env \<Rightarrow> Options \<Rightarrow> bool" where
  "write_fails e options =
     ((given (outputFile options) \<and> \<not> writeFile_ok e (or_empty (outputFile options))) \<or>
      (given (videoIdsFile options) \<and> \<not> writeFile_ok e (or_empty (videoIdsFile options))))"

section \<open>Examples\<close>

text \<open>
  A world where every connection attempt succeeds and every write is accepted, a process
  that has not touched the store yet, and a record as the fetch service returns it.
\<close>

definition example_env :: env where
  "example_env =
     \<lparr>connect = (\<lambda>k. None), timestamp_ok = (\<lambda>t. True), getVideoDetails = (\<lambda>v. Inr None),
      searchDiseaseVideos = (\<lambda>d n. Inr []), parseInt = (\<lambda>a. None), writeFile_ok = (\<lambda>p. True)\<rparr>"

definition fresh_proc :: proc where
  "fresh_proc =
     \<lparr>pool = None, conn_attempts = 0, db = \<lparr>videos = [], transcripts = [], analysis = []\<rparr>,
      trace = []\<rparr>"

definition example_video :: "string \<Rightarrow> string option \<Rightarrow> int option \<Rightarrow> VideoMetadata" where
  "example_video i t n =
     \<lparr>id' = i, title = t, description = Some [], publishedDate = Some ''2021-03-04T05:06:07Z'',
      durationInSeconds = n, viewCount = 7, url = ''https://youtu.be/'' @ i\<rparr>"

definition stored_proc :: proc where
  "stored_proc =
     \<lparr>pool = Some 0, conn_attempts = 1,
      db = \<lparr>videos = [\<lparr>video_id = ''dQw4w9WgXcQ'', title_c = ''A title'', description_c = None,
                       published_date = None, duration_seconds = None,
                       url_c = ''https://youtube.com/watch?v=dQw4w9WgXcQ''\<rparr>],
            transcripts = [], analysis = []\<rparr>,
      trace = []\<rparr>"

definition example_analysis :: AnalysisResult where
  "example_analysis =
     \<lparr>video_type = Some ''patient story'', name = Some [], age = None, sex = None,
      location = None, symptoms = Some (JArr [JStr ''fatigue'']),
      medicalHistoryOfPatient = Some (JStr []), familyMedicalHistory = None,
      challengesFacedDuringDiagnosis = Some (JArr []), key_opinion = None\<rparr>"

text \<open>
  A record whose ID is one character longer than the column \<open>VARCHAR(255)\<close>, the last
  character a space.
\<close>

definition padded_video :: VideoMetadata where
  "padded_video = example_video (replicate 255 CHR ''a'' @ '' '') (Some ''A title'') None"

section \<open>Sequences of calls\<close>

text \<open>
  A client of lib/database.ts makes store calls one after the other and catches their
  errors. \<open>stored_ids\<close> lists the IDs of the \<open>storeVideo\<close> calls of such a sequence that
  returned without an error.
\<close>

datatype call =
    StoreVideo VideoMetadata
  | StoreTranscript string string "string option"
  | StoreAnalysis string AnalysisResult

fun run_call :: "env \<Rightarrow> call \<Rightarrow> proc \<Rightarrow> (error + unit) \<times> proc" where
  "run_call e (StoreVideo m) s = storeVideo e m s"
| "run_call e (StoreTranscript i t l) s = storeTranscript e i t l s"
| "run_call e (StoreAnalysis i a) s = storeAnalysis e i a s"

fun run_calls :: "env \<Rightarrow> call list \<Rightarrow> proc \<Rightarrow> proc" where
  "run_calls e [] s = s"
| "run_calls e (c # cs) s = run_calls e cs (snd (run_call e c s))"

fun stored_ids :: "env \<Rightarrow> call list \<Rightarrow> proc \<Rightarrow> string list" where
  "stored_ids e [] s = []"
| "stored_ids e (c # cs) s =
     (case c of
        StoreVideo m \<Rightarrow> (case fst (storeVideo e m s) of Inr u \<Rightarrow> [id' m] | Inl err \<Rightarrow> [])
      | _ \<Rightarrow> []) @ stored_ids e cs (snd (run_call e c s))"

text \<open>
  Two more worlds: one where the first two connection attempts are refused, one where
  every attempt is.
\<close>

definition flaky_env :: env where
  "flaky_env = example_env\<lparr>connect := (\<lambda>k. if k < 2 then Some ''ECONNREFUSED'' else None)\<rparr>"

definition offline_env :: env where
  "offline_env = example_env\<lparr>connect := (\<lambda>k. Some ''ECONNREFUSED'')\<rparr>"

text \<open>The events that are calls of the fetch service.\<close>

fun is_fetch :: "event \<Rightarrow> bool" where
  "is_fetch (EGetVideoDetails v) = True"
| "is_fetch (ESearchDiseaseVideos d n) = True"
| "is_fetch ev = False"

text \<open>
  A world whose fetch service knows every video, and one whose search returns three
  records, the second without a title.
\<close>

definition single_env :: env where
  "single_env =
     example_env\<lparr>getVideoDetails := (\<lambda>v. Inr (Some (example_video v (Some ''A title'') (Some 212))))\<rparr>"

definition search_env :: env where
  "search_env =
     example_env\<lparr>searchDiseaseVideos := (\<lambda>d n.
        Inr [example_video ''dQw4w9WgXcQ'' (Some ''One'') (Some 212),
             example_video ''9bZkp7q19f0'' None (Some 60),
             example_video ''kJQP7kiw5Fk'' (Some ''Three'') None])\<rparr>"

text \<open>The world of the three records, with a file system that refuses every write.\<close>

definition readonly_env :: env where
  "readonly_env = search_env\<lparr>writeFile_ok := (\<lambda>p. False)\<rparr>"

section \<open>The connection loop\<close>

lemma connect_loop_ok:
  "attempt + j < retries \<Longrightarrow> connect e (conn_attempts s + j) = None \<Longrightarrow>
   \<forall>k<j. connect e (conn_attempts s + k) \<noteq> None \<Longrightarrow>
   connect_loop e retries i attempt s =
     (Inr (conn_attempts s + j),
      s\<lparr>conn_attempts := Suc (conn_attempts s + j), trace := trace s @ attempts_events i (Suc j)\<rparr>)"
proof (induction j arbitrary: attempt s)
  case 0
  then show ?case
    by (subst connect_loop.simps) (simp add: emit_def Let_def)
next
  case (Suc j)
  from Suc.prems(3)[rule_format, of 0] obtain msg where msg: "connect e (conn_attempts s) = Some msg"
    by auto
  let ?s1 = "emit (EDelay i) (emit EConnect (s\<lparr>conn_attempts := Suc (conn_attempts s)\<rparr>))"
  have ca: "conn_attempts ?s1 = Suc (conn_attempts s)"
    by (simp add: emit_def)
  have "connect_loop e retries i (Suc attempt) ?s1 =
     (Inr (conn_attempts ?s1 + j),
      ?s1\<lparr>conn_attempts := Suc (conn_attempts ?s1 + j), trace := trace ?s1 @ attempts_events i (Suc j)\<rparr>)"
  proof (rule Suc.IH)
    show "Suc attempt + j < retries" using Suc.prems(1) by simp
    show "connect e (conn_attempts ?s1 + j) = None" using Suc.prems(2) ca by simp
    show "\<forall>k<j. connect e (conn_attempts ?s1 + k) \<noteq> None"
    proof (intro allI impI)
      fix k assume "k < j"
      then have "Suc k < Suc j" by simp
      from Suc.prems(3)[rule_format, OF this]
      have "connect e (conn_attempts s + Suc k) \<noteq> None" .
      then show "connect e (conn_attempts ?s1 + k) \<noteq> None" using ca by simp
    qed
  qed
  moreover have "attempt < retries" "\<not> retries \<le> Suc attempt" using Suc.prems(1) by simp_all
  ultimately show ?case using msg
    by (subst connect_loop.simps) (simp add: emit_def Let_def)
qed

lemma connect_loop_fail:
  "attempt + n = retries \<Longrightarrow> 0 < n \<Longrightarrow>
   \<forall>k<n. connect e (conn_attempts s + k) \<noteq> None \<Longrightarrow>
   connect e (conn_attempts s + (n - 1)) = Some msg \<Longrightarrow>
   connect_loop e retries i attempt s =
     (Inl (ConnectionError msg),
      s\<lparr>conn_attempts := conn_attempts s + n, trace := trace s @ attempts_events i n\<rparr>)"
proof (induction n arbitrary: attempt s)
  case 0
  then show ?case by simp
next
  case (Suc n)
  show ?case
  proof (cases n)
    case 0
    with Suc.prems show ?thesis
      by (subst connect_loop.simps) (simp add: emit_def Let_def)
  next
    case (Suc m)
    from Suc.prems(3)[rule_format, of 0] obtain m0 where m0: "connect e (conn_attempts s) = Some m0"
      by auto
    let ?s1 = "emit (EDelay i) (emit EConnect (s\<lparr>conn_attempts := Suc (conn_attempts s)\<rparr>))"
    have ca: "conn_attempts ?s1 = Suc (conn_attempts s)"
      by (simp add: emit_def)
    have "connect_loop e retries i (Suc attempt) ?s1 =
      (Inl (ConnectionError msg),
       ?s1\<lparr>conn_attempts := conn_attempts ?s1 + n, trace := trace ?s1 @ attempts_events i n\<rparr>)"
    proof (rule Suc.IH)
      show "Suc attempt + n = retries" using Suc.prems(1) by simp
      show "0 < n" using Suc by simp
      show "\<forall>k<n. connect e (conn_attempts ?s1 + k) \<noteq> None"
      proof (intro allI impI)
        fix k assume "k < n"
        then have "Suc k < Suc n" by simp
        from Suc.prems(3)[rule_format, OF this]
        have "connect e (conn_attempts s + Suc k) \<noteq> None" .
        then show "connect e (conn_attempts ?s1 + k) \<noteq> None" using ca by simp
      qed
      show "connect e (conn_attempts ?s1 + (n - 1)) = Some msg"
        using Suc.prems(4) ca Suc by simp
    qed
    moreover have "attempt < retries" "\<not> retries \<le> Suc attempt" using Suc.prems(1) Suc by simp_all
    ultimately show ?thesis using m0 Suc
      by (subst connect_loop.simps) (simp add: emit_def Let_def)
  qed
qed

lemma first_success:
  assumes "list_ex (\<lambda>j. connect e (a + j) = None) [0..<n]"
  obtains j where "j < n" "connect e (a + j) = None" "\<forall>k<j. connect e (a + k) \<noteq> None"
proof -
  from assms have ex: "\<exists>j. j < n \<and> connect e (a + j) = None"
    by (auto simp: list_ex_iff)
  define j where "j = (LEAST j. j < n \<and> connect e (a + j) = None)"
  from ex have 1: "j < n \<and> connect e (a + j) = None"
    unfolding j_def by (rule LeastI_ex)
  have 2: "\<forall>k<j. connect e (a + k) \<noteq> None"
  proof (intro allI impI)
    fix k assume kj: "k < j"
    show "connect e (a + k) \<noteq> None"
    proof
      assume "connect e (a + k) = None"
      with kj 1 have "k < n \<and> connect e (a + k) = None" by simp
      then have "j \<le> k" unfolding j_def by (rule Least_le)
      with kj show False by simp
    qed
  qed
  from 1 2 that show thesis by blast
qed

lemma ensure_pool_available:
  assumes "db_available e s"
  shows "\<exists>s1. ensure_pool e s = (Inr (), s1) \<and> db s1 = db s \<and> pool s1 \<noteq> None"
proof (cases "pool s")
  case (Some p)
  then show ?thesis by (simp add: ensure_pool_def)
next
  case None
  with assms have "list_ex (\<lambda>j. connect e (conn_attempts s + j) = None) [0..<5]"
    by (simp add: db_available_def)
  then obtain j where j: "j < 5" "connect e (conn_attempts s + j) = None"
    "\<forall>k<j. connect e (conn_attempts s + k) \<noteq> None"
    by (rule first_success)
  from j(1) have "0 + j < 5" by simp
  from connect_loop_ok[OF this j(2) j(3), of 2000]
  show ?thesis using None
    by (simp add: ensure_pool_def initializeDatabase_def connectWithRetry_def create_tables_def emit_def)
qed

lemma connect_loop_db: "db (snd (connect_loop e retries i attempt s)) = db s"
proof (induction e retries i attempt s rule: connect_loop.induct)
  case (1 e retries retryInterval attempt s)
  show ?case
  proof (cases "attempt < retries")
    case False
    then show ?thesis by (subst connect_loop.simps) simp
  next
    case True
    show ?thesis
    proof (cases "connect e (conn_attempts s)")
      case None
      with True show ?thesis
        by (subst connect_loop.simps) (simp add: Let_def emit_def)
    next
      case (Some msg)
      show ?thesis
      proof (cases "retries \<le> Suc attempt")
        case True
        with \<open>attempt < retries\<close> Some show ?thesis
          by (subst connect_loop.simps) (simp add: Let_def emit_def)
      next
        case False
        from "1.IH"[OF \<open>attempt < retries\<close> refl refl Some False]
        show ?thesis using \<open>attempt < retries\<close> Some False
          by (subst connect_loop.simps) (simp add: Let_def emit_def)
      qed
    qed
  qed
qed

lemma initializeDatabase_db: "db (snd (initializeDatabase e s)) = db s"
proof (cases "pool s")
  case (Some p)
  then show ?thesis by (simp add: initializeDatabase_def create_tables_def emit_def)
next
  case None
  obtain r s1 where c: "connect_loop e 5 2000 0 s = (r, s1)" by (cases "connect_loop e 5 2000 0 s")
  with connect_loop_db[of e 5 2000 0 s] have "db s1 = db s" by simp
  with None c show ?thesis
    by (cases r) (simp_all add: initializeDatabase_def connectWithRetry_def create_tables_def emit_def)
qed

lemma ensure_pool_db: "db (snd (ensure_pool e s)) = db s"
  by (cases "pool s") (simp_all add: ensure_pool_def initializeDatabase_db)

lemma ensure_pool_ok_pool: "ensure_pool e s = (Inr u, s1) \<Longrightarrow> pool s1 \<noteq> None"
proof (cases "pool s")
  case (Some p)
  assume "ensure_pool e s = (Inr u, s1)"
  with Some show ?thesis by (auto simp: ensure_pool_def)
next
  case None
  assume a: "ensure_pool e s = (Inr u, s1)"
  obtain r s2 where c: "connect_loop e 5 2000 0 s = (r, s2)" by (cases "connect_loop e 5 2000 0 s")
  with None a show ?thesis
    by (cases r) (auto simp: ensure_pool_def initializeDatabase_def connectWithRetry_def create_tables_def emit_def)
qed

section \<open>The videos table\<close>

lemma key_present: "list_ex (\<lambda>r. video_id r = k) rs \<longleftrightarrow> k \<in> set (map video_id rs)"
  by (induction rs) auto

lemma put_video_ids_list:
  "map video_id (videos (put_video new d)) =
     (if video_id new \<in> set (map video_id (videos d)) then map video_id (videos d)
      else map video_id (videos d) @ [video_id new])"
proof -
  have "map video_id (map (\<lambda>r. if video_id r = video_id new
           then r\<lparr>title_c := title_c new, description_c := description_c new,
                  published_date := published_date new,
                  duration_seconds := duration_seconds new, url_c := url_c new\<rparr>
           else r) rs) = map video_id rs" for rs
    by (induction rs) auto
  then show ?thesis
    by (simp add: put_video_def key_present del: set_map)
qed

lemma put_video_ids:
  "set (map video_id (videos (put_video new d))) = insert (video_id new) (set (map video_id (videos d)))"
  by (simp only: put_video_ids_list) (auto simp del: set_map)

lemma put_video_distinct:
  "distinct (map video_id (videos d)) \<Longrightarrow> distinct (map video_id (videos (put_video new d)))"
  by (simp add: put_video_ids_list)

lemma put_video_others:
  "transcripts (put_video new d) = transcripts d" "analysis (put_video new d) = analysis d"
  by (simp_all add: put_video_def)

lemma put_video_row:
  "filter (\<lambda>r. video_id r = video_id new) (videos (put_video new d)) =
     (if video_id new \<in> set (map video_id (videos d))
      then map (\<lambda>r. new) (filter (\<lambda>r. video_id r = video_id new) (videos d))
      else [new])"
proof -
  have a: "filter (\<lambda>r. video_id r = video_id new) (map (\<lambda>r. if video_id r = video_id new
           then r\<lparr>title_c := title_c new, description_c := description_c new,
                  published_date := published_date new,
                  duration_seconds := duration_seconds new, url_c := url_c new\<rparr>
           else r) rs) = map (\<lambda>r. new) (filter (\<lambda>r. video_id r = video_id new) rs)" for rs
    by (induction rs) auto
  have b: "video_id new \<notin> video_id ` set rs \<Longrightarrow> filter (\<lambda>r. video_id r = video_id new) rs = []" for rs
    by (induction rs) auto
  show ?thesis
  proof (cases "video_id new \<in> set (map video_id (videos d))")
    case True
    then show ?thesis by (simp add: put_video_def key_present a del: set_map)
  next
    case False
    then have "filter (\<lambda>r. video_id r = video_id new) (videos d) = []"
      by (simp add: b)
    with False show ?thesis by (simp add: put_video_def key_present del: set_map)
  qed
qed

lemma distinct_key_filter:
  "distinct (map f rs) \<Longrightarrow> k \<in> set (map f rs) \<Longrightarrow> \<exists>r. filter (\<lambda>r. f r = k) rs = [r]"
proof (induction rs)
  case Nil
  then show ?case by simp
next
  case (Cons a rs)
  show ?case
  proof (cases "f a = k")
    case True
    with Cons.prems(1) have "\<forall>x\<in>set rs. f x \<noteq> k"
      by (auto simp: image_iff)
    then have "filter (\<lambda>r. f r = k) rs = []"
      by (simp add: filter_empty_conv)
    with True show ?thesis by simp
  next
    case False
    with Cons show ?thesis by auto
  qed
qed

lemma put_video_single:
  assumes "distinct (map video_id (videos d))"
  shows "filter (\<lambda>r. video_id r = video_id new) (videos (put_video new d)) = [new]"
proof (cases "video_id new \<in> set (map video_id (videos d))")
  case False
  then show ?thesis by (simp add: put_video_row)
next
  case True
  from distinct_key_filter[OF assms True] obtain r where
    "filter (\<lambda>r. video_id r = video_id new) (videos d) = [r]" ..
  with True show ?thesis by (simp add: put_video_row)
qed

lemma put_video_other_rows:
  "k \<noteq> video_id new \<Longrightarrow>
   filter (\<lambda>r. video_id r = k) (videos (put_video new d)) = filter (\<lambda>r. video_id r = k) (videos d)"
proof -
  assume k: "k \<noteq> video_id new"
  have "filter (\<lambda>r. video_id r = k) (map (\<lambda>r. if video_id r = video_id new
           then r\<lparr>title_c := title_c new, description_c := description_c new,
                  published_date := published_date new,
                  duration_seconds := duration_seconds new, url_c := url_c new\<rparr>
           else r) rs) = filter (\<lambda>r. video_id r = k) rs" for rs
    using k by (induction rs) auto
  then show ?thesis using k
    by (auto simp: put_video_def)
qed

lemma put_video_wf: "wf_db d \<Longrightarrow> wf_db (put_video new d)"
proof -
  assume wf: "wf_db d"
  have sub: "list_ex (\<lambda>v. video_id v = k) (videos d) \<Longrightarrow> list_ex (\<lambda>v. video_id v = k) (videos (put_video new d))" for k
  proof -
    assume "list_ex (\<lambda>v. video_id v = k) (videos d)"
    then have "k \<in> set (map video_id (videos d))" by (simp only: key_present)
    then have "k \<in> set (map video_id (videos (put_video new d)))" by (simp only: put_video_ids) simp
    then show ?thesis by (simp only: key_present)
  qed
  from wf show ?thesis
    unfolding wf_db_def
    by (auto simp: put_video_distinct put_video_others list_all_iff intro: sub)
qed

lemma varchar_take: "varchar n t = Some k \<Longrightarrow> k = take n t"
  by (auto simp: varchar_def split: if_splits)

lemma varchar_short: "length t \<le> n \<Longrightarrow> varchar n t = Some t"
  by (simp add: varchar_def)

lemma no_nul_canonical_url: "no_nul (canonical_url i) = no_nul i"
  by (simp add: no_nul_def canonical_url_def)

lemma video_values_valid:
  assumes "valid_metadata e m" and "title m = Some t"
  shows "video_values e (id' m) (title m) (description m) (or_null_str (publishedDate m))
     (or_null_num (durationInSeconds m)) (Some (canonical_url (id' m))) = Inr (video_params m t)"
proof -
  from assms(1) obtain k where k: "varchar 255 (id' m) = Some k"
    by (auto simp: valid_metadata_def)
  then have "k = take 255 (id' m)" by (rule varchar_take)
  with assms k show ?thesis
    by (simp add: video_values_def valid_metadata_def video_params_def text_ok_def
        no_nul_canonical_url)
qed

lemma video_values_invalid:
  assumes "\<not> valid_metadata e m"
  shows "\<exists>err. video_values e (id' m) (title m) (description m) (or_null_str (publishedDate m))
     (or_null_num (durationInSeconds m)) (Some (canonical_url (id' m))) = Inl err"
proof (cases "title m")
  case None
  then show ?thesis
    by (simp add: video_values_def split: option.splits)
next
  case (Some t)
  with assms show ?thesis
    by (auto simp: video_values_def valid_metadata_def text_ok_def no_nul_canonical_url
        split: option.splits)
qed

lemma upsert_video_valid:
  "valid_metadata e m \<Longrightarrow> title m = Some t \<Longrightarrow>
   upsert_video e (id' m) (title m) (description m) (or_null_str (publishedDate m))
     (or_null_num (durationInSeconds m)) (Some (canonical_url (id' m))) d =
   Inr (put_video (video_params m t) d)"
  using video_values_valid[of e m t] by (simp add: upsert_video_def)

lemma upsert_video_invalid:
  assumes "\<not> valid_metadata e m"
  shows "\<exists>err. upsert_video e (id' m) (title m) (description m) (or_null_str (publishedDate m))
     (or_null_num (durationInSeconds m)) (Some (canonical_url (id' m))) d = Inl err"
proof -
  from video_values_invalid[OF assms] obtain err where
    "video_values e (id' m) (title m) (description m) (or_null_str (publishedDate m))
     (or_null_num (durationInSeconds m)) (Some (canonical_url (id' m))) = Inl err" ..
  then show ?thesis by (simp add: upsert_video_def)
qed

lemma put_video_row_eq:
  assumes "r \<in> set (videos (put_video new d))" "video_id r = video_id new"
  shows "r = new"
proof -
  from assms have "r \<in> set (filter (\<lambda>r. video_id r = video_id new) (videos (put_video new d)))"
    by simp
  then show ?thesis
    by (simp only: put_video_row split: if_splits) auto
qed

lemma put_video_has_row: "new \<in> set (videos (put_video new d))"
proof -
  have "filter (\<lambda>r. video_id r = video_id new) (videos (put_video new d)) \<noteq> []"
    by (simp add: put_video_row key_present[symmetric] list_ex_iff filter_empty_conv del: set_map)
  then obtain r where r: "r \<in> set (videos (put_video new d))" "video_id r = video_id new"
    by (auto simp: filter_empty_conv)
  then have "r = new" by (rule put_video_row_eq)
  with r show ?thesis by simp
qed

section \<open>storeVideo on the store\<close>

lemma storeVideo_ok:
  assumes "db_available e s" "valid_metadata e m" "title m = Some t"
  shows "fst (storeVideo e m s) = Inr ()"
    and "db (snd (storeVideo e m s)) = put_video (video_params m t) (db s)"
    and "pool (snd (storeVideo e m s)) \<noteq> None"
proof -
  from ensure_pool_available[OF assms(1)] obtain s1 where
    s1: "ensure_pool e s = (Inr (), s1)" "db s1 = db s" "pool s1 \<noteq> None" by blast
  from upsert_video_valid[OF assms(2,3)] s1
  show "fst (storeVideo e m s) = Inr ()"
    and "db (snd (storeVideo e m s)) = put_video (video_params m t) (db s)"
    and "pool (snd (storeVideo e m s)) \<noteq> None"
    by (simp_all add: storeVideo_def run_statement_def)
qed

lemma storeVideo_Inr:
  assumes "fst (storeVideo e m s) = Inr u"
  shows "\<exists>t. title m = Some t \<and> valid_metadata e m \<and>
             db (snd (storeVideo e m s)) = put_video (video_params m t) (db s)"
proof -
  obtain r s1 where en: "ensure_pool e s = (r, s1)" by (cases "ensure_pool e s")
  with ensure_pool_db[of e s] have d: "db s1 = db s" by simp
  from assms en obtain u' where r: "r = Inr u'"
    by (cases r) (simp_all add: storeVideo_def)
  have v: "valid_metadata e m"
  proof (rule ccontr)
    assume "\<not> valid_metadata e m"
    from upsert_video_invalid[OF this, of "db s1"] assms en r show False
      by (auto simp: storeVideo_def run_statement_def)
  qed
  then obtain t where t: "title m = Some t"
    by (cases "title m") (auto simp: valid_metadata_def)
  from upsert_video_valid[OF v t, of "db s1"] en r d t v show ?thesis
    by (simp add: storeVideo_def run_statement_def)
qed

lemma storeVideo_Inl:
  assumes "fst (storeVideo e m s) = Inl err"
  shows "db (snd (storeVideo e m s)) = db s"
proof -
  obtain r s1 where en: "ensure_pool e s = (r, s1)" by (cases "ensure_pool e s")
  with ensure_pool_db[of e s] have d: "db s1 = db s" by simp
  from assms en d show ?thesis
    by (cases r) (auto simp: storeVideo_def run_statement_def split: sum.splits)
qed

lemma storeVideo_pool:
  assumes "pool s \<noteq> None"
  shows "pool (snd (storeVideo e m s)) \<noteq> None"
  using assms
  by (auto simp: storeVideo_def ensure_pool_def run_statement_def split: sum.splits)

lemma storeVideo_available:
  assumes "db_available e s"
  shows "pool (snd (storeVideo e m s)) \<noteq> None"
proof -
  from ensure_pool_available[OF assms] obtain s1 where
    s1: "ensure_pool e s = (Inr (), s1)" "pool s1 \<noteq> None" by blast
  then show ?thesis
    by (auto simp: storeVideo_def run_statement_def split: sum.splits)
qed

lemma storeVideo_wf: "wf_db (db s) \<Longrightarrow> wf_db (db (snd (storeVideo e m s)))"
proof (cases "fst (storeVideo e m s)")
  case (Inl err)
  assume "wf_db (db s)"
  with storeVideo_Inl[OF Inl] show ?thesis by simp
next
  case (Inr u)
  assume "wf_db (db s)"
  with storeVideo_Inr[OF Inr] show ?thesis by (auto simp: put_video_wf)
qed

section \<open>The examples, evaluated\<close>

lemma fresh_proc_simps:
  "pool fresh_proc = None" "conn_attempts fresh_proc = 0" "trace fresh_proc = []"
  "db fresh_proc = \<lparr>videos = [], transcripts = [], analysis = []\<rparr>"
  by (simp_all add: fresh_proc_def)

lemma connect_loop_example:
  "connect_loop example_env 5 2000 0 fresh_proc =
     (Inr 0, fresh_proc\<lparr>conn_attempts := 1, trace := [EConnect]\<rparr>)"
  by (subst connect_loop.simps) (simp add: example_env_def fresh_proc_simps emit_def)

lemma ensure_pool_example:
  "ensure_pool example_env fresh_proc =
     (Inr (), fresh_proc\<lparr>pool := Some 0, conn_attempts := 1,
        trace := [EConnect, ECreateTable ''videos'', ECreateTable ''transcripts'',
                  ECreateTable ''analysis'']\<rparr>)"
  by (simp add: ensure_pool_def initializeDatabase_def connectWithRetry_def
      create_tables_def emit_def fresh_proc_simps example_env_def Let_def)

lemma db_available_example: "db_available example_env fresh_proc"
  by (simp add: db_available_def example_env_def upt_rec)

lemma storeVideo_example:
  "storeVideo example_env (example_video ''dQw4w9WgXcQ'' (Some ''A title'') (Some 212)) fresh_proc =
   (Inr (), fresh_proc\<lparr>pool := Some 0, conn_attempts := 1,
      db := \<lparr>videos = [\<lparr>video_id = ''dQw4w9WgXcQ'', title_c = ''A title'', description_c = Some [],
                published_date = Some ''2021-03-04T05:06:07Z'', duration_seconds = Some 212,
                url_c = ''https://youtube.com/watch?v=dQw4w9WgXcQ''\<rparr>],
              transcripts = [], analysis = []\<rparr>,
      trace := [EConnect, ECreateTable ''videos'', ECreateTable ''transcripts'',
                  ECreateTable ''analysis'']\<rparr>)"
  by (simp add: storeVideo_def ensure_pool_example run_statement_def upsert_video_def video_values_def no_nul_def text_ok_def
      varchar_def
      example_video_def or_null_str_def or_null_num_def timestamp_param_ok_def int4_ok_def
      canonical_url_def put_video_def fresh_proc_simps)
     (simp add: example_env_def fresh_proc_def)

section \<open>The stored URL\<close>

text \<open>
  Claim C9. The \<open>url\<close> field of the record passed to \<open>storeVideo\<close> has no effect on what
  the call does; and when the call succeeds, the table has a row for the record's ID and
  every row for that ID has the text \<open>https://youtube.com/watch?v=\<close> followed by the ID
  in its \<open>url\<close> column. The row of an ID is the row whose key is the ID as the column
  \<open>VARCHAR(255)\<close> holds it, which for an ID of at most 255 characters is the ID itself.
\<close>

theorem storeVideo_url:
  "storeVideo e (m\<lparr>url := u\<rparr>) s = storeVideo e m s \<and>
   (fst (storeVideo e m s) = Inr () \<longrightarrow>
     (\<exists>r\<in>set (videos (db (snd (storeVideo e m s)))). video_id r = take 255 (id' m)) \<and>
     (\<forall>r\<in>set (videos (db (snd (storeVideo e m s)))).
        video_id r = take 255 (id' m) \<longrightarrow> url_c r = ''https://youtube.com/watch?v='' @ id' m))"
proof (intro conjI impI)
  show "storeVideo e (m\<lparr>url := u\<rparr>) s = storeVideo e m s"
    by (simp add: storeVideo_def split: prod.splits sum.splits)
next
  assume ok: "fst (storeVideo e m s) = Inr ()"
  from storeVideo_Inr[OF ok] obtain t where
    d: "db (snd (storeVideo e m s)) = put_video (video_params m t) (db s)" by blast
  have "video_params m t \<in> set (videos (db (snd (storeVideo e m s))))"
    by (simp only: d put_video_has_row)
  moreover have "video_id (video_params m t) = take 255 (id' m)" by (simp add: video_params_def)
  ultimately show "\<exists>r\<in>set (videos (db (snd (storeVideo e m s)))). video_id r = take 255 (id' m)"
    by blast
  show "\<forall>r\<in>set (videos (db (snd (storeVideo e m s)))).
        video_id r = take 255 (id' m) \<longrightarrow> url_c r = ''https://youtube.com/watch?v='' @ id' m"
  proof (intro ballI impI)
    fix r assume r: "r \<in> set (videos (db (snd (storeVideo e m s))))"
      "video_id r = take 255 (id' m)"
    then have "r = video_params m t"
      using put_video_row_eq[of r "video_params m t" "db s"] d by (simp add: video_params_def)
    then show "url_c r = ''https://youtube.com/watch?v='' @ id' m"
      by (simp add: video_params_def canonical_url_def)
  qed
qed

text \<open>
  The theorem at the example record, whose own \<open>url\<close> field is a \<open>youtu.be\<close> address:
  the call succeeds and the one stored row has the canonical address.
\<close>

theorem storeVideo_url_witness:
  "fst (storeVideo example_env (example_video ''dQw4w9WgXcQ'' (Some ''A title'') (Some 212)) fresh_proc) = Inr () \<and>
   map url_c (videos (db (snd (storeVideo example_env
      (example_video ''dQw4w9WgXcQ'' (Some ''A title'') (Some 212)) fresh_proc)))) =
     [''https://youtube.com/watch?v=dQw4w9WgXcQ''] \<and>
   url (example_video ''dQw4w9WgXcQ'' (Some ''A title'') (Some 212)) = ''https://youtu.be/dQw4w9WgXcQ''"
  using storeVideo_url[where e = example_env and s = fresh_proc and u = "''x''"
      and m = "example_video ''dQw4w9WgXcQ'' (Some ''A title'') (Some 212)"]
  by (simp add: storeVideo_example) (simp add: fresh_proc_def example_video_def)

section \<open>Upsert of a video\<close>

lemma storeVideo_again_example:
  "db (snd (storeVideo example_env (example_video ''dQw4w9WgXcQ'' (Some ''Second'') None)
       (snd (storeVideo example_env (example_video ''dQw4w9WgXcQ'' (Some ''A title'') (Some 212))
          fresh_proc)))) =
   \<lparr>videos = [\<lparr>video_id = ''dQw4w9WgXcQ'', title_c = ''Second'', description_c = Some [],
                published_date = Some ''2021-03-04T05:06:07Z'', duration_seconds = None,
                url_c = ''https://youtube.com/watch?v=dQw4w9WgXcQ''\<rparr>],
     transcripts = [], analysis = []\<rparr>"
  by (simp add: storeVideo_example)
     (simp add: storeVideo_def ensure_pool_def run_statement_def upsert_video_def video_values_def no_nul_def text_ok_def
      varchar_def
        example_video_def or_null_str_def or_null_num_def timestamp_param_ok_def int4_ok_def
        canonical_url_def put_video_def example_env_def)

lemma storeVideo_zero_again_example:
  "storeVideo example_env (example_video ''dQw4w9WgXcQ'' (Some ''Second'') (Some 0))
       (snd (storeVideo example_env (example_video ''dQw4w9WgXcQ'' (Some ''A title'') (Some 212))
          fresh_proc)) =
   (Inr (), fresh_proc\<lparr>pool := Some 0, conn_attempts := Suc 0,
      db := \<lparr>videos = [\<lparr>video_id = ''dQw4w9WgXcQ'', title_c = ''Second'', description_c = Some [],
                published_date = Some ''2021-03-04T05:06:07Z'', duration_seconds = None,
                url_c = ''https://youtube.com/watch?v=dQw4w9WgXcQ''\<rparr>],
              transcripts = [], analysis = []\<rparr>,
      trace := [EConnect, ECreateTable ''videos'', ECreateTable ''transcripts'',
                  ECreateTable ''analysis'']\<rparr>)"
  by (simp add: storeVideo_example)
     (simp add: storeVideo_def ensure_pool_def run_statement_def upsert_video_def
        video_values_def no_nul_def text_ok_def varchar_def
        example_video_def or_null_str_def or_null_num_def timestamp_param_ok_def int4_ok_def
        canonical_url_def put_video_def example_env_def fresh_proc_def)

lemma valid_metadata_example:
  "valid_metadata example_env (example_video ''dQw4w9WgXcQ'' (Some ''Second'') n) =
     int4_ok (or_null_num n)"
  by (simp add: valid_metadata_def example_video_def example_env_def timestamp_param_ok_def
      or_null_str_def no_nul_def text_ok_def varchar_def)

text \<open>
  Claim C1, as the specification states it, fails: what is persisted is not in every field
  the value of the second call. After a first call and a second call for the same ID
  with a valid record whose \<open>durationInSeconds\<close> is \<open>0\<close> and whose \<open>url\<close> is a \<open>youtu.be\<close>
  address, the one row of the ID has \<open>NULL\<close> in \<open>duration_seconds\<close> and the canonical
  address in \<open>url\<close>.
\<close>

theorem storeVideo_upsert_counterexample:
  "valid_metadata example_env (example_video ''dQw4w9WgXcQ'' (Some ''Second'') (Some 0)) \<and>
   durationInSeconds (example_video ''dQw4w9WgXcQ'' (Some ''Second'') (Some 0)) = Some 0 \<and>
   url (example_video ''dQw4w9WgXcQ'' (Some ''Second'') (Some 0)) = ''https://youtu.be/dQw4w9WgXcQ'' \<and>
   fst (storeVideo example_env (example_video ''dQw4w9WgXcQ'' (Some ''Second'') (Some 0))
       (snd (storeVideo example_env (example_video ''dQw4w9WgXcQ'' (Some ''A title'') (Some 212))
          fresh_proc))) = Inr () \<and>
   videos (db (snd (storeVideo example_env (example_video ''dQw4w9WgXcQ'' (Some ''Second'') (Some 0))
       (snd (storeVideo example_env (example_video ''dQw4w9WgXcQ'' (Some ''A title'') (Some 212))
          fresh_proc))))) =
     [\<lparr>video_id = ''dQw4w9WgXcQ'', title_c = ''Second'', description_c = Some [],
       published_date = Some ''2021-03-04T05:06:07Z'', duration_seconds = None,
       url_c = ''https://youtube.com/watch?v=dQw4w9WgXcQ''\<rparr>]"
  by (simp add: storeVideo_zero_again_example valid_metadata_example)
     (simp add: example_video_def int4_ok_def or_null_num_def fresh_proc_def)

text \<open>
  Claim C1, amended. \<open>storeVideo\<close> is an upsert keyed on the video ID. Let the store be
  reachable and satisfy the constraints of its schema. When \<open>storeVideo\<close> is called for a
  record and then for a valid record with the same ID, the second call succeeds, and
  afterwards the table has exactly one row for that ID (the row whose key is the ID as
  the column \<open>VARCHAR(255)\<close> holds it). The row holds the title and the description of the
  second call as given, its \<open>publishedDate\<close> and \<open>durationInSeconds\<close> as given unless they
  are falsy (the empty string, zero), in which case the column is null, and in \<open>url\<close> the
  text \<open>https://youtube.com/watch?v=\<close> followed by the ID. Nothing of the first call is
  left.
\<close>

theorem storeVideo_upsert:
  assumes "db_available e s" and "wf_db (db s)" and "id' m1 = id' m2"
    and "valid_metadata e m2" and "title m2 = Some t"
  shows "fst (storeVideo e m2 (snd (storeVideo e m1 s))) = Inr () \<and>
         filter (\<lambda>r. video_id r = take 255 (id' m2))
           (videos (db (snd (storeVideo e m2 (snd (storeVideo e m1 s)))))) =
         [\<lparr>video_id = take 255 (id' m2), title_c = t, description_c = description m2,
           published_date = (if publishedDate m2 = Some [] then None else publishedDate m2),
           duration_seconds = (if durationInSeconds m2 = Some 0 then None else durationInSeconds m2),
           url_c = ''https://youtube.com/watch?v='' @ id' m2\<rparr>]"
proof -
  let ?s1 = "snd (storeVideo e m1 s)"
  have "pool ?s1 \<noteq> None" using assms(1) by (rule storeVideo_available)
  then have av: "db_available e ?s1" by (simp add: db_available_def)
  have "wf_db (db ?s1)" using assms(2) by (rule storeVideo_wf)
  then have dist: "distinct (map video_id (videos (db ?s1)))" by (simp add: wf_db_def)
  have p: "video_params m2 t =
      \<lparr>video_id = take 255 (id' m2), title_c = t, description_c = description m2,
       published_date = (if publishedDate m2 = Some [] then None else publishedDate m2),
       duration_seconds = (if durationInSeconds m2 = Some 0 then None else durationInSeconds m2),
       url_c = ''https://youtube.com/watch?v='' @ id' m2\<rparr>"
    by (auto simp: video_params_def or_null_str_def or_null_num_def canonical_url_def
        split: option.splits)
  have vid: "video_id (video_params m2 t) = take 255 (id' m2)" by (simp add: video_params_def)
  have ok: "fst (storeVideo e m2 ?s1) = Inr ()"
    using av assms(4,5) by (rule storeVideo_ok(1))
  have "db (snd (storeVideo e m2 ?s1)) = put_video (video_params m2 t) (db ?s1)"
    using av assms(4,5) by (rule storeVideo_ok(2))
  then have "filter (\<lambda>r. video_id r = take 255 (id' m2)) (videos (db (snd (storeVideo e m2 ?s1)))) =
      filter (\<lambda>r. video_id r = video_id (video_params m2 t))
        (videos (put_video (video_params m2 t) (db ?s1)))"
    by (simp only: vid)
  also have "\<dots> = [video_params m2 t]" using dist by (rule put_video_single)
  finally show ?thesis using ok by (simp only: p)
qed

text \<open>
  The theorem at two example records with the same ID and different titles and durations,
  on a fresh process: the second call succeeds and the only title stored is the second.
\<close>

theorem storeVideo_upsert_witness:
  "db_available example_env fresh_proc \<and> wf_db (db fresh_proc) \<and>
   valid_metadata example_env (example_video ''dQw4w9WgXcQ'' (Some ''Second'') None) \<and>
   fst (storeVideo example_env (example_video ''dQw4w9WgXcQ'' (Some ''Second'') None)
       (snd (storeVideo example_env (example_video ''dQw4w9WgXcQ'' (Some ''A title'') (Some 212))
          fresh_proc))) = Inr () \<and>
   map title_c (videos (db (snd (storeVideo example_env
       (example_video ''dQw4w9WgXcQ'' (Some ''Second'') None)
       (snd (storeVideo example_env (example_video ''dQw4w9WgXcQ'' (Some ''A title'') (Some 212))
          fresh_proc)))))) = [''Second'']"
proof -
  have a: "db_available example_env fresh_proc" by (rule db_available_example)
  have w: "wf_db (db fresh_proc)" by (simp add: wf_db_def fresh_proc_simps)
  have i: "id' (example_video ''dQw4w9WgXcQ'' (Some ''A title'') (Some 212)) =
           id' (example_video ''dQw4w9WgXcQ'' (Some ''Second'') None)"
    by (simp add: example_video_def)
  have v: "valid_metadata example_env (example_video ''dQw4w9WgXcQ'' (Some ''Second'') None)"
    by (simp add: valid_metadata_example int4_ok_def or_null_num_def)
  have t: "title (example_video ''dQw4w9WgXcQ'' (Some ''Second'') None) = Some ''Second''"
    by (simp add: example_video_def)
  from storeVideo_upsert[OF a w i v t] a w v show ?thesis
    by (simp add: storeVideo_again_example)
qed

section \<open>Null at the storage boundary\<close>

lemma statement_result:
  assumes "(case ensure_pool e s of (Inl err, s1) \<Rightarrow> (Inl err, s1)
            | (Inr u, s1) \<Rightarrow> run_statement q s1) = (r, s')"
  shows "case r of Inl err \<Rightarrow> db s' = db s | Inr u \<Rightarrow> q (db s) = Inr (db s')"
proof -
  obtain r1 s1 where en: "ensure_pool e s = (r1, s1)" by (cases "ensure_pool e s")
  with ensure_pool_db[of e s] have d: "db s1 = db s" by simp
  show ?thesis
  proof (cases r1)
    case (Inl err)
    with assms en d show ?thesis by auto
  next
    case (Inr u)
    with assms en d show ?thesis
      by (cases "q (db s)") (auto simp: run_statement_def)
  qed
qed

lemma put_analysis_rows:
  assumes "put_analysis new d = Inr d'"
  shows "new \<in> set (analysis d')"
    and "r \<in> set (analysis d') \<Longrightarrow> video_id_a r = video_id_a new \<Longrightarrow> r = new"
proof -
  have ex: "list_ex (\<lambda>r. video_id_a r = k) rs \<longleftrightarrow> (\<exists>r\<in>set rs. video_id_a r = k)" for k rs
    by (simp add: list_ex_iff)
  show "new \<in> set (analysis d')"
    using assms by (auto simp: put_analysis_def ex split: if_splits)
  show "r \<in> set (analysis d') \<Longrightarrow> video_id_a r = video_id_a new \<Longrightarrow> r = new"
    using assms by (auto simp: put_analysis_def ex split: if_splits)
qed

lemma analysis_values_Inr:
  assumes "analysis_values params = Inr new"
  shows "new = params\<lparr>video_id_a := take 255 (video_id_a params)\<rparr>"
proof -
  from assms obtain k where k: "varchar 255 (video_id_a params) = Some k"
    and new: "new = params\<lparr>video_id_a := k\<rparr>"
    by (auto simp: analysis_values_def split: if_splits option.splits)
  from k have "k = take 255 (video_id_a params)" by (rule varchar_take)
  with new show ?thesis by simp
qed

lemma upsert_analysis_Inr:
  assumes "upsert_analysis params d = Inr d'"
  shows "put_analysis (params\<lparr>video_id_a := take 255 (video_id_a params)\<rparr>) d = Inr d'"
proof (cases "analysis_values params")
  case (Inl err)
  with assms show ?thesis by (simp add: upsert_analysis_def)
next
  case (Inr new)
  with assms analysis_values_Inr[OF Inr] show ?thesis by (simp add: upsert_analysis_def)
qed

lemma storeAnalysis_Inr:
  assumes "fst (storeAnalysis e i a s) = Inr u"
  shows "upsert_analysis (analysis_params i a) (db s) = Inr (db (snd (storeAnalysis e i a s)))"
proof -
  obtain r s' where rs: "storeAnalysis e i a s = (r, s')" by (cases "storeAnalysis e i a s")
  with assms have r: "r = Inr u" by simp
  from rs have "(case ensure_pool e s of (Inl err, s1) \<Rightarrow> (Inl err, s1)
            | (Inr u, s1) \<Rightarrow> run_statement (upsert_analysis (analysis_params i a)) s1) = (r, s')"
    by (simp add: storeAnalysis_def)
  from statement_result[OF this] r rs show ?thesis by simp
qed

lemma getVideoMetadata_Some:
  assumes "fst (getVideoMetadata e i s) = Inr (Some md)"
  shows "\<exists>r\<in>set (videos (db s)). video_id r = i \<and>
           md = \<lparr>id' = video_id r, title = Some (title_c r), description = description_c r,
                 publishedDate = Some (or_empty (published_date r)),
                 durationInSeconds = Some (or_zero (duration_seconds r)),
                 viewCount = 0, url = url_c r\<rparr>"
proof -
  obtain r1 s1 where en: "ensure_pool e s = (r1, s1)" by (cases "ensure_pool e s")
  with ensure_pool_db[of e s] have d: "db s1 = db s" by simp
  from assms en obtain u where r1: "r1 = Inr u"
    by (cases r1) (simp_all add: getVideoMetadata_def)
  from assms en r1 have nn: "no_nul i"
    by (cases "no_nul i") (simp_all add: getVideoMetadata_def)
  show ?thesis
  proof (cases "filter (\<lambda>r. video_id r = i) (videos (db s))")
    case Nil
    with assms en r1 d nn show ?thesis by (simp add: getVideoMetadata_def)
  next
    case (Cons row rest)
    then have "row \<in> set (filter (\<lambda>r. video_id r = i) (videos (db s)))" by simp
    then have "row \<in> set (videos (db s))" "video_id row = i" by simp_all
    moreover from assms en r1 d Cons nn have
      "md = \<lparr>id' = video_id row, title = Some (title_c row), description = description_c row,
                 publishedDate = Some (or_empty (published_date row)),
                 durationInSeconds = Some (or_zero (duration_seconds row)),
                 viewCount = 0, url = url_c row\<rparr>"
      by (simp add: getVideoMetadata_def)
    ultimately show ?thesis by blast
  qed
qed

lemma stored_proc_simps:
  "pool stored_proc = Some 0"
  "db stored_proc =
     \<lparr>videos = [\<lparr>video_id = ''dQw4w9WgXcQ'', title_c = ''A title'', description_c = None,
                       published_date = None, duration_seconds = None,
                       url_c = ''https://youtube.com/watch?v=dQw4w9WgXcQ''\<rparr>],
            transcripts = [], analysis = []\<rparr>"
  by (simp_all add: stored_proc_def)

lemma storeVideo_zero_example:
  "fst (storeVideo example_env (example_video ''dQw4w9WgXcQ'' (Some ''A title'') (Some 0))
          fresh_proc) = Inr ()"
  "map duration_seconds (videos (db (snd (storeVideo example_env
      (example_video ''dQw4w9WgXcQ'' (Some ''A title'') (Some 0)) fresh_proc)))) = [None]"
  by (simp_all add: storeVideo_def ensure_pool_example run_statement_def upsert_video_def video_values_def no_nul_def text_ok_def
      varchar_def
      example_video_def or_null_str_def or_null_num_def timestamp_param_ok_def int4_ok_def
      canonical_url_def put_video_def fresh_proc_simps)
     (simp_all add: example_env_def)

lemma storeVideo_stored_example:
  "fst (storeVideo example_env (example_video ''dQw4w9WgXcQ'' (Some ''A title'') (Some 212))
          stored_proc) = Inr ()"
  "map published_date (videos (db (snd (storeVideo example_env
      (example_video ''dQw4w9WgXcQ'' (Some ''A title'') (Some 212)) stored_proc)))) =
     [Some ''2021-03-04T05:06:07Z'']"
  by (simp_all add: storeVideo_def ensure_pool_def run_statement_def upsert_video_def video_values_def no_nul_def text_ok_def
      varchar_def
      example_video_def or_null_str_def or_null_num_def timestamp_param_ok_def int4_ok_def
      canonical_url_def put_video_def stored_proc_simps example_env_def)

lemma storeAnalysis_stored_example:
  "fst (storeAnalysis example_env ''dQw4w9WgXcQ'' example_analysis stored_proc) = Inr ()"
  "analysis (db (snd (storeAnalysis example_env ''dQw4w9WgXcQ'' example_analysis stored_proc))) =
     [\<lparr>video_id_a = ''dQw4w9WgXcQ'', video_type_c = Some ''patient story'', name_c = Some [],
       age_c = None, sex_c = None, location_c = None,
       symptoms_c = Some (JArr [JStr ''fatigue'']), medical_history_of_patient = None,
       family_medical_history = None, challenges_faced_during_diagnosis = Some (JArr []),
       key_opinion_c = None\<rparr>]"
  by (simp_all add: storeAnalysis_def ensure_pool_def run_statement_def upsert_analysis_def
      analysis_values_def put_analysis_def no_nul_def text_ok_def varchar_def jsonb_param_ok_def
      analysis_params_def example_analysis_def stringify_or_null_def stored_proc_simps)

lemma getVideoMetadata_stored_example:
  "fst (getVideoMetadata example_env ''dQw4w9WgXcQ'' stored_proc) =
     Inr (Some \<lparr>id' = ''dQw4w9WgXcQ'', title = Some ''A title'', description = None,
                publishedDate = Some [], durationInSeconds = Some 0, viewCount = 0,
                url = ''https://youtube.com/watch?v=dQw4w9WgXcQ''\<rparr>)"
  by (simp add: getVideoMetadata_def ensure_pool_def stored_proc_simps or_empty_def or_zero_def
      no_nul_def)

text \<open>
  Claim C2, as the specification states it, fails: a field that is present is not always
  stored with its value. A record whose \<open>durationInSeconds\<close> is \<open>0\<close> is stored with \<open>NULL\<close>
  in \<open>duration_seconds\<close>.
\<close>

theorem store_nulls_counterexample:
  "durationInSeconds (example_video ''dQw4w9WgXcQ'' (Some ''A title'') (Some 0)) = Some 0 \<and>
   fst (storeVideo example_env (example_video ''dQw4w9WgXcQ'' (Some ''A title'') (Some 0))
          fresh_proc) = Inr () \<and>
   map duration_seconds (videos (db (snd (storeVideo example_env
      (example_video ''dQw4w9WgXcQ'' (Some ''A title'') (Some 0)) fresh_proc)))) = [None]"
  by (simp add: storeVideo_zero_example) (simp add: example_video_def)

text \<open>
  Claim C2, amended. When \<open>storeVideo\<close> succeeds, the row of the record has the record's
  \<open>title\<close> and \<open>description\<close> as given (so \<open>description\<close> is null exactly when absent, and an
  empty string stays an empty string), while \<open>published_date\<close> and \<open>duration_seconds\<close> are
  null exactly when the field is absent or falsy (the empty string, zero) and hold the
  given value otherwise. When \<open>storeAnalysis\<close> succeeds, the row has the five text fields
  and \<open>key_opinion\<close> as given, and each of the four JSON columns is null exactly when the
  field is absent or falsy and holds the given value otherwise. Only \<open>getVideoMetadata\<close>
  turns a null \<open>published_date\<close> into the empty string and a null \<open>duration_seconds\<close> into
  zero. The row of an ID is the row whose key is the ID as the column \<open>VARCHAR(255)\<close>
  holds it, which for an ID of at most 255 characters is the ID itself.
\<close>

theorem store_nulls:
  "(fst (storeVideo e m s) = Inr () \<longrightarrow>
      (\<exists>r\<in>set (videos (db (snd (storeVideo e m s)))). video_id r = take 255 (id' m)) \<and>
      (\<forall>r\<in>set (videos (db (snd (storeVideo e m s)))). video_id r = take 255 (id' m) \<longrightarrow>
         title m = Some (title_c r) \<and> description_c r = description m \<and>
         published_date r = (if publishedDate m = Some [] then None else publishedDate m) \<and>
         duration_seconds r =
           (if durationInSeconds m = Some 0 then None else durationInSeconds m))) \<and>
   (fst (storeAnalysis e i a s) = Inr () \<longrightarrow>
      (\<exists>r\<in>set (analysis (db (snd (storeAnalysis e i a s)))). video_id_a r = take 255 i) \<and>
      (\<forall>r\<in>set (analysis (db (snd (storeAnalysis e i a s)))). video_id_a r = take 255 i \<longrightarrow>
         video_type_c r = video_type a \<and> name_c r = name a \<and> age_c r = age a \<and>
         sex_c r = sex a \<and> location_c r = location a \<and> key_opinion_c r = key_opinion a \<and>
         symptoms_c r =
           (case symptoms a of None \<Rightarrow> None | Some v \<Rightarrow> if truthy v then Some v else None) \<and>
         medical_history_of_patient r =
           (case medicalHistoryOfPatient a of None \<Rightarrow> None
            | Some v \<Rightarrow> if truthy v then Some v else None) \<and>
         family_medical_history r =
           (case familyMedicalHistory a of None \<Rightarrow> None
            | Some v \<Rightarrow> if truthy v then Some v else None) \<and>
         challenges_faced_during_diagnosis r =
           (case challengesFacedDuringDiagnosis a of None \<Rightarrow> None
            | Some v \<Rightarrow> if truthy v then Some v else None))) \<and>
   (\<forall>md. fst (getVideoMetadata e i s) = Inr (Some md) \<longrightarrow>
      (\<exists>r\<in>set (videos (db s)). video_id r = i \<and>
         title md = Some (title_c r) \<and> description md = description_c r \<and>
         publishedDate md = Some (case published_date r of None \<Rightarrow> [] | Some d \<Rightarrow> d) \<and>
         durationInSeconds md = Some (case duration_seconds r of None \<Rightarrow> 0 | Some n \<Rightarrow> n)))"
proof (intro conjI impI allI)
  assume ok: "fst (storeVideo e m s) = Inr ()"
  from storeVideo_Inr[OF ok] obtain t where t: "title m = Some t"
    and d: "db (snd (storeVideo e m s)) = put_video (video_params m t) (db s)" by blast
  have vid: "video_id (video_params m t) = take 255 (id' m)" by (simp add: video_params_def)
  have "video_params m t \<in> set (videos (db (snd (storeVideo e m s))))"
    by (simp only: d put_video_has_row)
  with vid show "\<exists>r\<in>set (videos (db (snd (storeVideo e m s)))). video_id r = take 255 (id' m)"
    by blast
  show "\<forall>r\<in>set (videos (db (snd (storeVideo e m s)))). video_id r = take 255 (id' m) \<longrightarrow>
         title m = Some (title_c r) \<and> description_c r = description m \<and>
         published_date r = (if publishedDate m = Some [] then None else publishedDate m) \<and>
         duration_seconds r =
           (if durationInSeconds m = Some 0 then None else durationInSeconds m)"
  proof (intro ballI impI)
    fix r assume r: "r \<in> set (videos (db (snd (storeVideo e m s))))" "video_id r = take 255 (id' m)"
    then have "r = video_params m t"
      using put_video_row_eq[of r "video_params m t" "db s"] d vid by simp
    then show "title m = Some (title_c r) \<and> description_c r = description m \<and>
         published_date r = (if publishedDate m = Some [] then None else publishedDate m) \<and>
         duration_seconds r =
           (if durationInSeconds m = Some 0 then None else durationInSeconds m)"
      using t by (auto simp: video_params_def or_null_str_def or_null_num_def split: option.splits)
  qed
next
  assume ok: "fst (storeAnalysis e i a s) = Inr ()"
  let ?new = "(analysis_params i a)\<lparr>video_id_a := take 255 (video_id_a (analysis_params i a))\<rparr>"
  note up = upsert_analysis_Inr[OF storeAnalysis_Inr[OF ok]]
  have vid: "video_id_a ?new = take 255 i" by (simp add: analysis_params_def)
  from put_analysis_rows(1)[OF up] vid
  show "\<exists>r\<in>set (analysis (db (snd (storeAnalysis e i a s)))). video_id_a r = take 255 i"
    by blast
  show "\<forall>r\<in>set (analysis (db (snd (storeAnalysis e i a s)))). video_id_a r = take 255 i \<longrightarrow>
         video_type_c r = video_type a \<and> name_c r = name a \<and> age_c r = age a \<and>
         sex_c r = sex a \<and> location_c r = location a \<and> key_opinion_c r = key_opinion a \<and>
         symptoms_c r =
           (case symptoms a of None \<Rightarrow> None | Some v \<Rightarrow> if truthy v then Some v else None) \<and>
         medical_history_of_patient r =
           (case medicalHistoryOfPatient a of None \<Rightarrow> None
            | Some v \<Rightarrow> if truthy v then Some v else None) \<and>
         family_medical_history r =
           (case familyMedicalHistory a of None \<Rightarrow> None
            | Some v \<Rightarrow> if truthy v then Some v else None) \<and>
         challenges_faced_during_diagnosis r =
           (case challengesFacedDuringDiagnosis a of None \<Rightarrow> None
            | Some v \<Rightarrow> if truthy v then Some v else None)"
  proof (intro ballI impI)
    fix r assume r: "r \<in> set (analysis (db (snd (storeAnalysis e i a s))))" "video_id_a r = take 255 i"
    with put_analysis_rows(2)[OF up, of r] vid have "r = ?new" by simp
    then show "video_type_c r = video_type a \<and> name_c r = name a \<and> age_c r = age a \<and>
         sex_c r = sex a \<and> location_c r = location a \<and> key_opinion_c r = key_opinion a \<and>
         symptoms_c r =
           (case symptoms a of None \<Rightarrow> None | Some v \<Rightarrow> if truthy v then Some v else None) \<and>
         medical_history_of_patient r =
           (case medicalHistoryOfPatient a of None \<Rightarrow> None
            | Some v \<Rightarrow> if truthy v then Some v else None) \<and>
         family_medical_history r =
           (case familyMedicalHistory a of None \<Rightarrow> None
            | Some v \<Rightarrow> if truthy v then Some v else None) \<and>
         challenges_faced_during_diagnosis r =
           (case challengesFacedDuringDiagnosis a of None \<Rightarrow> None
            | Some v \<Rightarrow> if truthy v then Some v else None)"
      by (simp add: analysis_params_def stringify_or_null_def)
  qed
next
  fix md assume "fst (getVideoMetadata e i s) = Inr (Some md)"
  from getVideoMetadata_Some[OF this] obtain r where
    r: "r \<in> set (videos (db s))" "video_id r = i"
     "md = \<lparr>id' = video_id r, title = Some (title_c r), description = description_c r,
                 publishedDate = Some (or_empty (published_date r)),
                 durationInSeconds = Some (or_zero (duration_seconds r)),
                 viewCount = 0, url = url_c r\<rparr>" by blast
  have "title md = Some (title_c r) \<and> description md = description_c r \<and>
         publishedDate md = Some (case published_date r of None \<Rightarrow> [] | Some d \<Rightarrow> d) \<and>
         durationInSeconds md = Some (case duration_seconds r of None \<Rightarrow> 0 | Some n \<Rightarrow> n)"
    by (simp add: r(3) or_empty_def or_zero_def split: option.splits)
  with r(1,2) show "\<exists>r\<in>set (videos (db s)). video_id r = i \<and>
         title md = Some (title_c r) \<and> description md = description_c r \<and>
         publishedDate md = Some (case published_date r of None \<Rightarrow> [] | Some d \<Rightarrow> d) \<and>
         durationInSeconds md = Some (case duration_seconds r of None \<Rightarrow> 0 | Some n \<Rightarrow> n)"
    by blast
qed

text \<open>
  The theorem on a store that holds one video with null date and duration: both writes
  succeed, the empty-string JSON field is stored as null and the empty \<open>name\<close> as the empty
  string, and reading the video back gives the empty string and zero.
\<close>

theorem store_nulls_witness:
  "fst (storeVideo example_env (example_video ''dQw4w9WgXcQ'' (Some ''A title'') (Some 212))
          stored_proc) = Inr () \<and>
   fst (storeAnalysis example_env ''dQw4w9WgXcQ'' example_analysis stored_proc) = Inr () \<and>
   map medical_history_of_patient
     (analysis (db (snd (storeAnalysis example_env ''dQw4w9WgXcQ'' example_analysis stored_proc)))) =
     [None] \<and>
   map name_c
     (analysis (db (snd (storeAnalysis example_env ''dQw4w9WgXcQ'' example_analysis stored_proc)))) =
     [Some []] \<and>
   map published_date (videos (db stored_proc)) = [None] \<and>
   fst (getVideoMetadata example_env ''dQw4w9WgXcQ'' stored_proc) =
     Inr (Some \<lparr>id' = ''dQw4w9WgXcQ'', title = Some ''A title'', description = None,
                publishedDate = Some [], durationInSeconds = Some 0, viewCount = 0,
                url = ''https://youtube.com/watch?v=dQw4w9WgXcQ''\<rparr>)"
  using store_nulls[where e = example_env and s = stored_proc and i = "''dQw4w9WgXcQ''"
      and a = example_analysis
      and m = "example_video ''dQw4w9WgXcQ'' (Some ''A title'') (Some 212)"]
  by (simp add: storeVideo_stored_example storeAnalysis_stored_example
      getVideoMetadata_stored_example stored_proc_simps)

section \<open>Transcripts and analyses need their video\<close>

lemma statement_pool:
  assumes "db_available e s"
  shows "pool (snd (case ensure_pool e s of (Inl err, s1) \<Rightarrow> (Inl err, s1)
            | (Inr u, s1) \<Rightarrow> run_statement q s1)) \<noteq> None"
proof -
  from ensure_pool_available[OF assms] obtain s1 where
    s1: "ensure_pool e s = (Inr (), s1)" "pool s1 \<noteq> None" by blast
  then show ?thesis
    by (auto simp: run_statement_def split: sum.splits)
qed

lemma statement_cases:
  obtains (failed) err where
      "fst (case ensure_pool e s of (Inl err, s1) \<Rightarrow> (Inl err, s1)
            | (Inr u, s1) \<Rightarrow> run_statement q s1) = Inl err"
      "db (snd (case ensure_pool e s of (Inl err, s1) \<Rightarrow> (Inl err, s1)
            | (Inr u, s1) \<Rightarrow> run_statement q s1)) = db s"
  | (passed) "fst (case ensure_pool e s of (Inl err, s1) \<Rightarrow> (Inl err, s1)
            | (Inr u, s1) \<Rightarrow> run_statement q s1) = Inr ()"
      "q (db s) = Inr (db (snd (case ensure_pool e s of (Inl err, s1) \<Rightarrow> (Inl err, s1)
            | (Inr u, s1) \<Rightarrow> run_statement q s1)))"
proof -
  let ?op = "case ensure_pool e s of (Inl err, s1) \<Rightarrow> (Inl err, s1)
            | (Inr u, s1) \<Rightarrow> run_statement q s1"
  obtain r s' where rs: "?op = (r, s')" by (cases ?op)
  note res = statement_result[OF rs]
  show thesis
  proof (cases r)
    case (Inl err)
    with res rs failed show ?thesis by simp
  next
    case (Inr u)
    with res rs passed show ?thesis by simp
  qed
qed

lemma put_transcript_videos: "put_transcript new d = Inr d' \<Longrightarrow> videos d' = videos d"
  by (auto simp: put_transcript_def split: if_splits)

lemma put_analysis_videos: "put_analysis new d = Inr d' \<Longrightarrow> videos d' = videos d"
  by (auto simp: put_analysis_def split: if_splits)

lemma upsert_transcript_Inr:
  assumes "upsert_transcript i t l d = Inr d'"
  shows "\<exists>new. put_transcript new d = Inr d'"
  using assms by (cases "transcript_values i t l") (auto simp: upsert_transcript_def)

lemma upsert_analysis_put:
  assumes "upsert_analysis params d = Inr d'"
  shows "\<exists>new. put_analysis new d = Inr d'"
  using upsert_analysis_Inr[OF assms] by blast

lemma wf_db_alt:
  "wf_db d \<longleftrightarrow>
     distinct (map video_id (videos d)) \<and> distinct (map video_id_t (transcripts d)) \<and>
     distinct (map video_id_a (analysis d)) \<and>
     set (map video_id_t (transcripts d)) \<subseteq> set (map video_id (videos d)) \<and>
     set (map video_id_a (analysis d)) \<subseteq> set (map video_id (videos d))"
proof -
  have t: "list_all (\<lambda>r. list_ex (\<lambda>v. video_id v = video_id_t r) vs) rs \<longleftrightarrow>
      set (map video_id_t rs) \<subseteq> set (map video_id vs)" for vs rs
    by (induction rs) (simp_all add: key_present del: set_map)
  have a: "list_all (\<lambda>r. list_ex (\<lambda>v. video_id v = video_id_a r) vs) rs \<longleftrightarrow>
      set (map video_id_a rs) \<subseteq> set (map video_id vs)" for vs rs
    by (induction rs) (simp_all add: key_present del: set_map)
  show ?thesis by (simp only: wf_db_def t a)
qed

lemma put_transcript_wf:
  assumes "put_transcript new d = Inr d'" "wf_db d"
  shows "wf_db d'"
proof -
  have ex: "list_ex (\<lambda>r. video_id_t r = k) rs \<longleftrightarrow> k \<in> set (map video_id_t rs)" for rs k
    by (induction rs) auto
  have keys: "map video_id_t (map (\<lambda>r. if video_id_t r = video_id_t new
       then r\<lparr>full_transcript := full_transcript new, language := language new\<rparr> else r) rs) =
       map video_id_t rs" for rs
    by (induction rs) auto
  show ?thesis
  proof (cases "video_id_t new \<in> set (map video_id_t (transcripts d))")
    case True
    with assms(1) have d': "d' = d\<lparr>transcripts := map (\<lambda>r. if video_id_t r = video_id_t new
       then r\<lparr>full_transcript := full_transcript new, language := language new\<rparr> else r)
       (transcripts d)\<rparr>"
      by (simp add: put_transcript_def ex del: set_map split: if_splits)
    have "map video_id_t (transcripts d') = map video_id_t (transcripts d)"
      "videos d' = videos d" "analysis d' = analysis d"
      by (simp_all add: d' keys del: map_map)
    with assms(2) show ?thesis by (simp only: wf_db_alt)
  next
    case False
    with assms(1) have d': "d' = d\<lparr>transcripts := transcripts d @ [new]\<rparr>"
      and v: "video_id_t new \<in> set (map video_id (videos d))"
      by (simp_all add: put_transcript_def ex key_present del: set_map split: if_splits)
    have "map video_id_t (transcripts d') = map video_id_t (transcripts d) @ [video_id_t new]"
      "videos d' = videos d" "analysis d' = analysis d"
      by (simp_all add: d')
    with assms(2) False v show ?thesis by (simp add: wf_db_alt del: set_map)
  qed
qed

lemma put_analysis_wf:
  assumes "put_analysis new d = Inr d'" "wf_db d"
  shows "wf_db d'"
proof -
  have ex: "list_ex (\<lambda>r. video_id_a r = k) rs \<longleftrightarrow> k \<in> set (map video_id_a rs)" for rs k
    by (induction rs) auto
  have keys: "map video_id_a (map (\<lambda>r. if video_id_a r = video_id_a new then new else r) rs) =
      map video_id_a rs" for rs
    by (induction rs) auto
  show ?thesis
  proof (cases "video_id_a new \<in> set (map video_id_a (analysis d))")
    case True
    with assms(1) have d': "d' = d\<lparr>analysis :=
        map (\<lambda>r. if video_id_a r = video_id_a new then new else r) (analysis d)\<rparr>"
      by (simp add: put_analysis_def ex del: set_map split: if_splits)
    have "map video_id_a (analysis d') = map video_id_a (analysis d)"
      "videos d' = videos d" "transcripts d' = transcripts d"
      by (simp_all add: d' keys del: map_map)
    with assms(2) show ?thesis by (simp only: wf_db_alt)
  next
    case False
    with assms(1) have d': "d' = d\<lparr>analysis := analysis d @ [new]\<rparr>"
      and v: "video_id_a new \<in> set (map video_id (videos d))"
      by (simp_all add: put_analysis_def ex key_present del: set_map split: if_splits)
    have "map video_id_a (analysis d') = map video_id_a (analysis d) @ [video_id_a new]"
      "videos d' = videos d" "transcripts d' = transcripts d"
      by (simp_all add: d')
    with assms(2) False v show ?thesis by (simp add: wf_db_alt del: set_map)
  qed
qed

lemma run_call_wf: "wf_db (db s) \<Longrightarrow> wf_db (db (snd (run_call e c s)))"
proof (cases c)
  case (StoreVideo m)
  assume "wf_db (db s)"
  with StoreVideo show ?thesis by (simp add: storeVideo_wf)
next
  case (StoreTranscript i t l)
  assume wf: "wf_db (db s)"
  show ?thesis
  proof (cases rule: statement_cases[where e = e and s = s
        and q = "upsert_transcript i t (case l of None \<Rightarrow> ''en'' | Some l \<Rightarrow> l)"])
    case (failed err)
    with wf StoreTranscript show ?thesis by (simp add: storeTranscript_def)
  next
    case passed
    from upsert_transcript_Inr[OF passed(2)] obtain new where
      "put_transcript new (db s) = Inr (db (snd (case ensure_pool e s of
          (Inl err, s1) \<Rightarrow> (Inl err, s1)
        | (Inr u, s1) \<Rightarrow> run_statement
            (upsert_transcript i t (case l of None \<Rightarrow> ''en'' | Some l \<Rightarrow> l)) s1)))" ..
    from put_transcript_wf[OF this wf] StoreTranscript show ?thesis
      by (simp add: storeTranscript_def)
  qed
next
  case (StoreAnalysis i a)
  assume wf: "wf_db (db s)"
  show ?thesis
  proof (cases rule: statement_cases[where e = e and s = s and q = "upsert_analysis (analysis_params i a)"])
    case (failed err)
    with wf StoreAnalysis show ?thesis by (simp add: storeAnalysis_def)
  next
    case passed
    from upsert_analysis_put[OF passed(2)] obtain new where
      "put_analysis new (db s) = Inr (db (snd (case ensure_pool e s of
          (Inl err, s1) \<Rightarrow> (Inl err, s1)
        | (Inr u, s1) \<Rightarrow> run_statement (upsert_analysis (analysis_params i a)) s1)))" ..
    from put_analysis_wf[OF this wf] StoreAnalysis show ?thesis
      by (simp add: storeAnalysis_def)
  qed
qed

lemma run_call_videos:
  "videos (db (snd (run_call e c s))) =
     (case c of StoreVideo m \<Rightarrow> videos (db (snd (storeVideo e m s))) | _ \<Rightarrow> videos (db s))"
proof (cases c)
  case (StoreVideo m)
  then show ?thesis by simp
next
  case (StoreTranscript i t l)
  show ?thesis
  proof (cases rule: statement_cases[where e = e and s = s
        and q = "upsert_transcript i t (case l of None \<Rightarrow> ''en'' | Some l \<Rightarrow> l)"])
    case (failed err)
    with StoreTranscript show ?thesis by (simp add: storeTranscript_def)
  next
    case passed
    from upsert_transcript_Inr[OF passed(2)] obtain new where
      "put_transcript new (db s) = Inr (db (snd (case ensure_pool e s of
          (Inl err, s1) \<Rightarrow> (Inl err, s1)
        | (Inr u, s1) \<Rightarrow> run_statement
            (upsert_transcript i t (case l of None \<Rightarrow> ''en'' | Some l \<Rightarrow> l)) s1)))" ..
    from put_transcript_videos[OF this] StoreTranscript show ?thesis
      by (simp add: storeTranscript_def)
  qed
next
  case (StoreAnalysis i a)
  show ?thesis
  proof (cases rule: statement_cases[where e = e and s = s and q = "upsert_analysis (analysis_params i a)"])
    case (failed err)
    with StoreAnalysis show ?thesis by (simp add: storeAnalysis_def)
  next
    case passed
    from upsert_analysis_put[OF passed(2)] obtain new where
      "put_analysis new (db s) = Inr (db (snd (case ensure_pool e s of
          (Inl err, s1) \<Rightarrow> (Inl err, s1)
        | (Inr u, s1) \<Rightarrow> run_statement (upsert_analysis (analysis_params i a)) s1)))" ..
    from put_analysis_videos[OF this] StoreAnalysis show ?thesis
      by (simp add: storeAnalysis_def)
  qed
qed

lemma run_call_available: "db_available e s \<Longrightarrow> db_available e (snd (run_call e c s))"
proof -
  assume a: "db_available e s"
  have "pool (snd (run_call e c s)) \<noteq> None"
    by (cases c) (simp_all add: storeVideo_def storeTranscript_def storeAnalysis_def statement_pool[OF a])
  then show ?thesis by (simp add: db_available_def)
qed

lemma run_calls_wf: "wf_db (db s) \<Longrightarrow> wf_db (db (run_calls e cs s))"
  by (induction cs arbitrary: s) (simp_all add: run_call_wf)

lemma run_calls_available: "db_available e s \<Longrightarrow> db_available e (run_calls e cs s)"
  by (induction cs arbitrary: s) (simp_all add: run_call_available)

lemma run_call_ids:
  "set (map video_id (videos (db (snd (run_call e c s))))) =
     set (map video_id (videos (db s))) \<union>
     take 255 ` set (case c of
        StoreVideo m \<Rightarrow> (case fst (storeVideo e m s) of Inr u \<Rightarrow> [id' m] | Inl err \<Rightarrow> [])
      | _ \<Rightarrow> [])"
proof (cases c)
  case (StoreVideo m)
  show ?thesis
  proof (cases "fst (storeVideo e m s)")
    case (Inl err)
    from storeVideo_Inl[OF Inl] Inl StoreVideo show ?thesis by simp
  next
    case (Inr u)
    from storeVideo_Inr[OF Inr] obtain t where
      d: "db (snd (storeVideo e m s)) = put_video (video_params m t) (db s)" by blast
    have "set (map video_id (videos (db (snd (storeVideo e m s))))) =
        insert (take 255 (id' m)) (set (map video_id (videos (db s))))"
      by (simp only: d put_video_ids) (simp add: video_params_def)
    with Inr StoreVideo show ?thesis by (simp del: set_map)
  qed
next
  case (StoreTranscript i t l)
  with run_call_videos[of e c s] show ?thesis by simp
next
  case (StoreAnalysis i a)
  with run_call_videos[of e c s] show ?thesis by simp
qed

lemma run_calls_ids:
  "set (map video_id (videos (db (run_calls e cs s)))) =
     set (map video_id (videos (db s))) \<union> take 255 ` set (stored_ids e cs s)"
proof (induction cs arbitrary: s)
  case Nil
  then show ?case by simp
next
  case (Cons c cs)
  have "set (map video_id (videos (db (run_calls e (c # cs) s)))) =
      set (map video_id (videos (db (snd (run_call e c s))))) \<union>
      take 255 ` set (stored_ids e cs (snd (run_call e c s)))"
    using Cons.IH[of "snd (run_call e c s)"] by simp
  also have "\<dots> = set (map video_id (videos (db s))) \<union> take 255 ` set (stored_ids e (c # cs) s)"
    by (simp only: run_call_ids stored_ids.simps set_append Un_assoc image_Un)
  finally show ?case .
qed

lemma stored_ids_subset:
  "i \<in> set (stored_ids e cs s) \<Longrightarrow> \<exists>m. StoreVideo m \<in> set cs \<and> id' m = i"
proof (induction cs arbitrary: s)
  case Nil
  then show ?case by simp
next
  case (Cons c cs)
  from Cons.prems have "i \<in> set (case c of
        StoreVideo m \<Rightarrow> (case fst (storeVideo e m s) of Inr u \<Rightarrow> [id' m] | Inl err \<Rightarrow> [])
      | _ \<Rightarrow> []) \<or> i \<in> set (stored_ids e cs (snd (run_call e c s)))"
    by simp
  then show ?case
  proof
    assume "i \<in> set (case c of
        StoreVideo m \<Rightarrow> (case fst (storeVideo e m s) of Inr u \<Rightarrow> [id' m] | Inl err \<Rightarrow> [])
      | _ \<Rightarrow> [])"
    then obtain m where "c = StoreVideo m" "id' m = i"
      by (cases c) (auto split: sum.splits)
    then show ?thesis by auto
  next
    assume "i \<in> set (stored_ids e cs (snd (run_call e c s)))"
    from Cons.IH[OF this] show ?thesis by auto
  qed
qed

lemma statement_available:
  assumes "db_available e s"
  shows "fst (case ensure_pool e s of (Inl err, s1) \<Rightarrow> (Inl err, s1)
            | (Inr u, s1) \<Rightarrow> run_statement q s1) =
         (case q (db s) of Inl err \<Rightarrow> Inl err | Inr d \<Rightarrow> Inr ())"
proof -
  from ensure_pool_available[OF assms] obtain s1 where
    s1: "ensure_pool e s = (Inr (), s1)" "db s1 = db s" by blast
  then show ?thesis
    by (simp add: run_statement_def split: sum.splits)
qed

lemma statement_fails:
  assumes "q (db s) = Inl err"
  shows "\<exists>err'. fst (case ensure_pool e s of (Inl err, s1) \<Rightarrow> (Inl err, s1)
            | (Inr u, s1) \<Rightarrow> run_statement q s1) = Inl err'"
    and "db (snd (case ensure_pool e s of (Inl err, s1) \<Rightarrow> (Inl err, s1)
            | (Inr u, s1) \<Rightarrow> run_statement q s1)) = db s"
proof -
  show "\<exists>err'. fst (case ensure_pool e s of (Inl err, s1) \<Rightarrow> (Inl err, s1)
            | (Inr u, s1) \<Rightarrow> run_statement q s1) = Inl err'"
  proof (cases rule: statement_cases[where e = e and s = s and q = q])
    case (failed err)
    then show ?thesis by blast
  next
    case passed
    with assms show ?thesis by simp
  qed
  show "db (snd (case ensure_pool e s of (Inl err, s1) \<Rightarrow> (Inl err, s1)
            | (Inr u, s1) \<Rightarrow> run_statement q s1)) = db s"
  proof (cases rule: statement_cases[where e = e and s = s and q = q])
    case (failed err)
    then show ?thesis by blast
  next
    case passed
    with assms show ?thesis by simp
  qed
qed

lemma put_transcript_no_video:
  assumes "wf_db d" "video_id_t new \<notin> set (map video_id (videos d))"
  shows "put_transcript new d = Inl ForeignKeyViolation"
proof -
  have ex: "list_ex (\<lambda>r. video_id_t r = k) rs \<longleftrightarrow> k \<in> set (map video_id_t rs)" for rs k
    by (induction rs) auto
  from assms have "video_id_t new \<notin> set (map video_id_t (transcripts d))"
    by (auto simp: wf_db_alt simp del: set_map)
  with assms(2) show ?thesis
    by (simp add: put_transcript_def ex key_present del: set_map)
qed

lemma put_analysis_no_video:
  assumes "wf_db d" "video_id_a new \<notin> set (map video_id (videos d))"
  shows "put_analysis new d = Inl ForeignKeyViolation"
proof -
  have ex: "list_ex (\<lambda>r. video_id_a r = k) rs \<longleftrightarrow> k \<in> set (map video_id_a rs)" for rs k
    by (induction rs) auto
  from assms have "video_id_a new \<notin> set (map video_id_a (analysis d))"
    by (auto simp: wf_db_alt simp del: set_map)
  with assms(2) show ?thesis
    by (simp add: put_analysis_def ex key_present del: set_map)
qed

lemma transcript_values_key:
  "transcript_values i t l = Inr new \<Longrightarrow> video_id_t new = take 255 i"
  by (auto simp: transcript_values_def split: if_splits option.splits dest: varchar_take)

lemma upsert_transcript_no_video:
  assumes "wf_db d" "take 255 i \<notin> set (map video_id (videos d))"
  shows "upsert_transcript i t l d =
           (case transcript_values i t l of Inl err \<Rightarrow> Inl err | Inr new \<Rightarrow> Inl ForeignKeyViolation)"
proof (cases "transcript_values i t l")
  case (Inl err)
  then show ?thesis by (simp add: upsert_transcript_def)
next
  case (Inr new)
  from transcript_values_key[OF Inr] assms(2)
  have "video_id_t new \<notin> set (map video_id (videos d))" by simp
  from put_transcript_no_video[OF assms(1) this] Inr show ?thesis
    by (simp add: upsert_transcript_def)
qed

lemma upsert_analysis_no_video:
  assumes "wf_db d" "take 255 (video_id_a params) \<notin> set (map video_id (videos d))"
  shows "upsert_analysis params d =
           (case analysis_values params of Inl err \<Rightarrow> Inl err | Inr new \<Rightarrow> Inl ForeignKeyViolation)"
proof (cases "analysis_values params")
  case (Inl err)
  then show ?thesis by (simp add: upsert_analysis_def)
next
  case (Inr new)
  from analysis_values_Inr[OF Inr] assms(2)
  have "video_id_a new \<notin> set (map video_id (videos d))" by simp
  from put_analysis_no_video[OF assms(1) this] Inr show ?thesis
    by (simp add: upsert_analysis_def)
qed

lemma run_calls_no_video:
  assumes "k \<notin> set (map video_id (videos (db s)))"
    and "\<forall>m. StoreVideo m \<in> set cs \<longrightarrow> take 255 (id' m) \<noteq> k"
  shows "k \<notin> set (map video_id (videos (db (run_calls e cs s))))"
proof
  assume "k \<in> set (map video_id (videos (db (run_calls e cs s))))"
  with assms(1) have "k \<in> take 255 ` set (stored_ids e cs s)" by (simp only: run_calls_ids) simp
  then obtain i where i: "i \<in> set (stored_ids e cs s)" "k = take 255 i" by blast
  from stored_ids_subset[OF i(1)] i(2) assms(2) show False by blast
qed

lemma wf_db_fresh: "wf_db (db fresh_proc)"
  by (simp add: wf_db_def fresh_proc_simps)

lemma valid_metadata_padded: "valid_metadata example_env padded_video"
  by (simp add: valid_metadata_def padded_video_def example_video_def no_nul_def text_ok_def
      varchar_def or_null_str_def or_null_num_def timestamp_param_ok_def int4_ok_def
      example_env_def)

lemma db_padded_example:
  "db (run_calls example_env [StoreVideo padded_video] fresh_proc) =
     \<lparr>videos = [\<lparr>video_id = replicate 255 CHR ''a'', title_c = ''A title'',
                  description_c = Some [], published_date = Some ''2021-03-04T05:06:07Z'',
                  duration_seconds = None,
                  url_c = ''https://youtube.com/watch?v='' @ replicate 255 CHR ''a'' @ '' ''\<rparr>],
      transcripts = [], analysis = []\<rparr>"
proof -
  have t: "title padded_video = Some ''A title''"
    by (simp add: padded_video_def example_video_def)
  have "db (run_calls example_env [StoreVideo padded_video] fresh_proc) =
      put_video (video_params padded_video ''A title'') (db fresh_proc)"
    using storeVideo_ok(2)[OF db_available_example valid_metadata_padded t] by simp
  also have "\<dots> = \<lparr>videos = [\<lparr>video_id = replicate 255 CHR ''a'', title_c = ''A title'',
                  description_c = Some [], published_date = Some ''2021-03-04T05:06:07Z'',
                  duration_seconds = None,
                  url_c = ''https://youtube.com/watch?v='' @ replicate 255 CHR ''a'' @ '' ''\<rparr>],
      transcripts = [], analysis = []\<rparr>"
    by (simp add: put_video_def video_params_def padded_video_def example_video_def
        fresh_proc_simps or_null_str_def or_null_num_def canonical_url_def)
  finally show ?thesis .
qed

text \<open>
  Claim C4, as the specification states it, fails at an ID of the length of the column.
  \<open>storeVideo\<close> is called once, with an ID of 255 letters and a space. The column
  \<open>VARCHAR(255)\<close> holds the 255 letters. The ID of 255 letters was never passed to
  \<open>storeVideo\<close>, and \<open>storeTranscript\<close> and \<open>storeAnalysis\<close> with it return without an error.
\<close>

theorem store_without_video_counterexample:
  "id' padded_video \<noteq> replicate 255 CHR ''a'' \<and>
   fst (storeTranscript example_env (replicate 255 CHR ''a'') ''Hello.'' None
     (run_calls example_env [StoreVideo padded_video] fresh_proc)) = Inr () \<and>
   fst (storeAnalysis example_env (replicate 255 CHR ''a'') example_analysis
     (run_calls example_env [StoreVideo padded_video] fresh_proc)) = Inr ()"
proof -
  have av: "db_available example_env (run_calls example_env [StoreVideo padded_video] fresh_proc)"
    using db_available_example by (rule run_calls_available)
  have 1: "id' padded_video \<noteq> replicate 255 CHR ''a''"
    by (simp add: padded_video_def example_video_def)
  have 2: "fst (storeTranscript example_env (replicate 255 CHR ''a'') ''Hello.'' None
     (run_calls example_env [StoreVideo padded_video] fresh_proc)) = Inr ()"
    by (simp only: storeTranscript_def statement_available[OF av] db_padded_example)
       (simp add: upsert_transcript_def transcript_values_def put_transcript_def no_nul_def
          varchar_def)
  have 3: "fst (storeAnalysis example_env (replicate 255 CHR ''a'') example_analysis
     (run_calls example_env [StoreVideo padded_video] fresh_proc)) = Inr ()"
    by (simp only: storeAnalysis_def statement_available[OF av] db_padded_example)
       (simp add: upsert_analysis_def analysis_values_def put_analysis_def analysis_params_def
          example_analysis_def no_nul_def text_ok_def varchar_def jsonb_param_ok_def
          stringify_or_null_def)
  from 1 2 3 show ?thesis by simp
qed

text \<open>
  Claim C4, amended. Rows are found by the ID as the column \<open>VARCHAR(255)\<close> holds it, which
  is the ID cut to 255 characters. Let the store satisfy the constraints of its schema and
  hold no video under the ID \<open>i\<close> cut to 255 characters, and let any sequence of store calls
  follow in which \<open>storeVideo\<close> is never called with an ID that, cut to 255 characters,
  equals \<open>i\<close> cut to 255 characters. Then \<open>storeTranscript\<close> and \<open>storeAnalysis\<close> with the ID
  \<open>i\<close> both fail with an error and leave the three tables as they were. When the store can
  be reached, the error is the one the store raises for the values of the parameters, if
  it refuses them, and the violation of the foreign key to \<open>videos\<close> otherwise.
\<close>

theorem store_without_video:
  assumes "wf_db (db s)" and "take 255 i \<notin> set (map video_id (videos (db s)))"
    and "\<forall>m. StoreVideo m \<in> set cs \<longrightarrow> take 255 (id' m) \<noteq> take 255 i"
  shows "(\<exists>err. fst (storeTranscript e i t l (run_calls e cs s)) = Inl err) \<and>
         db (snd (storeTranscript e i t l (run_calls e cs s))) = db (run_calls e cs s) \<and>
         (\<exists>err. fst (storeAnalysis e i a (run_calls e cs s)) = Inl err) \<and>
         db (snd (storeAnalysis e i a (run_calls e cs s))) = db (run_calls e cs s) \<and>
         (db_available e s \<longrightarrow>
            fst (storeTranscript e i t l (run_calls e cs s)) =
              (case transcript_values i t (case l of None \<Rightarrow> ''en'' | Some x \<Rightarrow> x) of
                 Inl err \<Rightarrow> Inl err | Inr new \<Rightarrow> Inl ForeignKeyViolation) \<and>
            fst (storeAnalysis e i a (run_calls e cs s)) =
              (case analysis_values (analysis_params i a) of
                 Inl err \<Rightarrow> Inl err | Inr new \<Rightarrow> Inl ForeignKeyViolation))"
proof -
  let ?s = "run_calls e cs s"
  let ?l = "case l of None \<Rightarrow> ''en'' | Some x \<Rightarrow> x"
  have wf: "wf_db (db ?s)" using assms(1) by (rule run_calls_wf)
  have no: "take 255 i \<notin> set (map video_id (videos (db ?s)))"
    using assms(2,3) by (rule run_calls_no_video)
  have vid: "video_id_a (analysis_params i a) = i" by (simp add: analysis_params_def)
  note ut = upsert_transcript_no_video[OF wf no, of t ?l]
  from no vid
  have "take 255 (video_id_a (analysis_params i a)) \<notin> set (map video_id (videos (db ?s)))"
    by simp
  note ua = upsert_analysis_no_video[OF wf this]
  from ut obtain err1 where e1: "upsert_transcript i t ?l (db ?s) = Inl err1"
    by (cases "transcript_values i t ?l") simp_all
  from ua obtain err2 where e2: "upsert_analysis (analysis_params i a) (db ?s) = Inl err2"
    by (cases "analysis_values (analysis_params i a)") simp_all
  have 1: "\<exists>err. fst (storeTranscript e i t l ?s) = Inl err"
    unfolding storeTranscript_def
    by (rule statement_fails(1)[where q = "upsert_transcript i t ?l" and s = ?s, OF e1])
  have 2: "db (snd (storeTranscript e i t l ?s)) = db ?s"
    unfolding storeTranscript_def
    by (rule statement_fails(2)[where q = "upsert_transcript i t ?l" and s = ?s, OF e1])
  have 3: "\<exists>err. fst (storeAnalysis e i a ?s) = Inl err"
    unfolding storeAnalysis_def
    by (rule statement_fails(1)[where q = "upsert_analysis (analysis_params i a)" and s = ?s, OF e2])
  have 4: "db (snd (storeAnalysis e i a ?s)) = db ?s"
    unfolding storeAnalysis_def
    by (rule statement_fails(2)[where q = "upsert_analysis (analysis_params i a)" and s = ?s, OF e2])
  have 5: "fst (storeTranscript e i t l ?s) =
              (case transcript_values i t ?l of
                 Inl err \<Rightarrow> Inl err | Inr new \<Rightarrow> Inl ForeignKeyViolation) \<and>
           fst (storeAnalysis e i a ?s) =
              (case analysis_values (analysis_params i a) of
                 Inl err \<Rightarrow> Inl err | Inr new \<Rightarrow> Inl ForeignKeyViolation)"
    if h: "db_available e s"
  proof -
    from h have av: "db_available e ?s" by (rule run_calls_available)
    have a: "fst (storeTranscript e i t l ?s) =
        (case transcript_values i t ?l of
                 Inl err \<Rightarrow> Inl err | Inr new \<Rightarrow> Inl ForeignKeyViolation)"
      by (simp only: storeTranscript_def statement_available[OF av] ut)
         (simp split: sum.splits)
    have b: "fst (storeAnalysis e i a ?s) =
        (case analysis_values (analysis_params i a) of
                 Inl err \<Rightarrow> Inl err | Inr new \<Rightarrow> Inl ForeignKeyViolation)"
      by (simp only: storeAnalysis_def statement_available[OF av] ua)
         (simp split: sum.splits)
    from a b show ?thesis by simp
  qed
  from 1 2 3 4 5 show ?thesis by blast
qed

text \<open>
  The theorem on a fresh process after one video with another ID was stored: both calls
  fail with the foreign-key violation.
\<close>

theorem store_without_video_witness:
  "wf_db (db fresh_proc) \<and> db_available example_env fresh_proc \<and>
   take 255 ''dQw4w9WgXcQ'' \<notin> set (map video_id (videos (db fresh_proc))) \<and>
   take 255 (id' (example_video ''9bZkp7q19f0'' (Some ''A title'') None)) \<noteq>
     take 255 ''dQw4w9WgXcQ'' \<and>
   fst (storeTranscript example_env ''dQw4w9WgXcQ'' ''Hello.'' None
     (run_calls example_env [StoreVideo (example_video ''9bZkp7q19f0'' (Some ''A title'') None)]
        fresh_proc)) = Inl ForeignKeyViolation \<and>
   fst (storeAnalysis example_env ''dQw4w9WgXcQ'' example_analysis
     (run_calls example_env [StoreVideo (example_video ''9bZkp7q19f0'' (Some ''A title'') None)]
        fresh_proc)) = Inl ForeignKeyViolation"
proof -
  have n: "take 255 ''dQw4w9WgXcQ'' \<notin> set (map video_id (videos (db fresh_proc)))"
    by (simp add: fresh_proc_simps)
  have o: "take 255 (id' (example_video ''9bZkp7q19f0'' (Some ''A title'') None)) \<noteq>
      take 255 ''dQw4w9WgXcQ''"
    by (simp add: example_video_def)
  then have c: "\<forall>m. StoreVideo m \<in> set [StoreVideo (example_video ''9bZkp7q19f0'' (Some ''A title'') None)]
      \<longrightarrow> take 255 (id' m) \<noteq> take 255 ''dQw4w9WgXcQ''" by simp
  have tv: "transcript_values ''dQw4w9WgXcQ'' ''Hello.'' ''en'' =
      Inr \<lparr>video_id_t = ''dQw4w9WgXcQ'', full_transcript = ''Hello.'', language = ''en''\<rparr>"
    by (simp add: transcript_values_def no_nul_def varchar_def)
  have av: "\<exists>new. analysis_values (analysis_params ''dQw4w9WgXcQ'' example_analysis) = Inr new"
    by (simp add: analysis_values_def analysis_params_def example_analysis_def no_nul_def
        text_ok_def varchar_def jsonb_param_ok_def stringify_or_null_def)
  then obtain new where
    av': "analysis_values (analysis_params ''dQw4w9WgXcQ'' example_analysis) = Inr new" ..
  from store_without_video[OF wf_db_fresh n c, of example_env "''Hello.''" None example_analysis]
    db_available_example wf_db_fresh n o
  show ?thesis by (simp add: tv av')
qed

section \<open>Listing the IDs\<close>

lemma getAllVideoIds_available:
  assumes "db_available e s"
  shows "fst (getAllVideoIds e s) = Inr (map video_id (videos (db s)))"
proof -
  from ensure_pool_available[OF assms] obtain s1 where
    s1: "ensure_pool e s = (Inr (), s1)" "db s1 = db s" by blast
  then show ?thesis by (simp add: getAllVideoIds_def)
qed

lemma run_calls_failed_example:
  "db (run_calls example_env
     [StoreVideo (example_video (replicate 256 CHR ''a'') (Some ''A title'') None),
      StoreVideo (example_video ''dQw4w9WgXcQ'' None None)] fresh_proc) = db fresh_proc"
proof -
  have 1: "\<not> valid_metadata example_env
      (example_video (replicate 256 CHR ''a'') (Some ''A title'') None)"
    by (simp add: valid_metadata_def example_video_def varchar_def)
  have 2: "\<not> valid_metadata example_env (example_video ''dQw4w9WgXcQ'' None None)"
    by (simp add: valid_metadata_def example_video_def)
  have a: "db (snd (storeVideo example_env m s)) = db s" if "\<not> valid_metadata example_env m"
    for m s
  proof (cases "fst (storeVideo example_env m s)")
    case (Inl err)
    then show ?thesis by (rule storeVideo_Inl)
  next
    case (Inr u)
    from storeVideo_Inr[OF Inr] that show ?thesis by blast
  qed
  show ?thesis by (simp add: a[OF 1] a[OF 2])
qed

lemma run_calls_two_example:
  "db (run_calls example_env
     [StoreVideo (example_video ''dQw4w9WgXcQ'' (Some ''A title'') (Some 212)),
      StoreVideo (example_video ''dQw4w9WgXcQ'' (Some ''Second'') None)] fresh_proc) =
   \<lparr>videos = [\<lparr>video_id = ''dQw4w9WgXcQ'', title_c = ''Second'', description_c = Some [],
                published_date = Some ''2021-03-04T05:06:07Z'', duration_seconds = None,
                url_c = ''https://youtube.com/watch?v=dQw4w9WgXcQ''\<rparr>],
     transcripts = [], analysis = []\<rparr>"
  by (simp add: storeVideo_again_example)

text \<open>
  Claim C6, as the specification states it, fails: an ID passed to a \<open>storeVideo\<close> call
  that failed is not listed. After a call with an ID of 256 letters (the column is
  \<open>VARCHAR(255)\<close>) and a call with a record without a title (the column is \<open>NOT NULL\<close>),
  \<open>getAllVideoIds\<close> returns the empty list.
\<close>

theorem getAllVideoIds_counterexample:
  "fst (getAllVideoIds example_env
     (run_calls example_env
        [StoreVideo (example_video (replicate 256 CHR ''a'') (Some ''A title'') None),
         StoreVideo (example_video ''dQw4w9WgXcQ'' None None)] fresh_proc)) = Inr []"
proof -
  have av: "db_available example_env (run_calls example_env
        [StoreVideo (example_video (replicate 256 CHR ''a'') (Some ''A title'') None),
         StoreVideo (example_video ''dQw4w9WgXcQ'' None None)] fresh_proc)"
    using db_available_example by (rule run_calls_available)
  show ?thesis
    by (simp only: getAllVideoIds_available[OF av] run_calls_failed_example)
       (simp add: fresh_proc_simps)
qed

text \<open>
  Claim C6, amended. Let the store be reachable and satisfy the constraints of its
  schema. After any sequence of store calls, \<open>getAllVideoIds\<close> returns a list without
  duplicates whose elements are the IDs the table held before and, for every \<open>storeVideo\<close>
  call that returned without an error, the ID passed to it, cut to 255 characters as the
  column \<open>VARCHAR(255)\<close> holds it. Nothing is said about the order.
\<close>

theorem getAllVideoIds_after_calls:
  assumes "db_available e s" and "wf_db (db s)"
  shows "\<exists>ids. fst (getAllVideoIds e (run_calls e cs s)) = Inr ids \<and> distinct ids \<and>
           set ids = set (map video_id (videos (db s))) \<union> take 255 ` set (stored_ids e cs s)"
proof -
  let ?ids = "map video_id (videos (db (run_calls e cs s)))"
  have av: "db_available e (run_calls e cs s)" using assms(1) by (rule run_calls_available)
  have 1: "fst (getAllVideoIds e (run_calls e cs s)) = Inr ?ids"
    using av by (rule getAllVideoIds_available)
  have "wf_db (db (run_calls e cs s))" using assms(2) by (rule run_calls_wf)
  then have 2: "distinct ?ids" by (simp add: wf_db_def)
  have 3: "set ?ids = set (map video_id (videos (db s))) \<union> take 255 ` set (stored_ids e cs s)"
    by (rule run_calls_ids)
  from 1 2 3 show ?thesis by blast
qed

text \<open>
  The theorem on a fresh process after two calls with the same ID: the ID is listed once.
\<close>

theorem getAllVideoIds_after_calls_witness:
  "db_available example_env fresh_proc \<and> wf_db (db fresh_proc) \<and>
   fst (getAllVideoIds example_env (run_calls example_env
     [StoreVideo (example_video ''dQw4w9WgXcQ'' (Some ''A title'') (Some 212)),
      StoreVideo (example_video ''dQw4w9WgXcQ'' (Some ''Second'') None)] fresh_proc)) =
     Inr [''dQw4w9WgXcQ'']"
proof -
  have av: "db_available example_env (run_calls example_env
     [StoreVideo (example_video ''dQw4w9WgXcQ'' (Some ''A title'') (Some 212)),
      StoreVideo (example_video ''dQw4w9WgXcQ'' (Some ''Second'') None)] fresh_proc)"
    using db_available_example by (rule run_calls_available)
  from getAllVideoIds_after_calls[OF db_available_example wf_db_fresh, of
      "[StoreVideo (example_video ''dQw4w9WgXcQ'' (Some ''A title'') (Some 212)),
        StoreVideo (example_video ''dQw4w9WgXcQ'' (Some ''Second'') None)]"]
    db_available_example wf_db_fresh
  show ?thesis
    by (simp only: getAllVideoIds_available[OF av] run_calls_two_example) simp
qed

section \<open>Reading a video back\<close>

lemma getVideoMetadata_available:
  assumes "db_available e s"
  shows "fst (getVideoMetadata e i s) =
     (if \<not> no_nul i then Inl InvalidByteSequence
      else case filter (\<lambda>r. video_id r = i) (videos (db s)) of
        [] \<Rightarrow> Inr None
      | row # rest \<Rightarrow>
          Inr (Some \<lparr>id' = video_id row, title = Some (title_c row),
                     description = description_c row,
                     publishedDate = Some (or_empty (published_date row)),
                     durationInSeconds = Some (or_zero (duration_seconds row)),
                     viewCount = 0, url = url_c row\<rparr>))"
proof -
  from ensure_pool_available[OF assms] obtain s1 where
    s1: "ensure_pool e s = (Inr (), s1)" "db s1 = db s" by blast
  then show ?thesis by (simp add: getVideoMetadata_def split: list.splits)
qed

text \<open>
  Claim C5, as the specification states it, fails at an ID with the character NUL, which
  no text value of the store can hold. No video with the ID \<open>a\<close> followed by NUL was ever
  stored, and \<open>getVideoMetadata\<close> with this ID fails with the error of the store instead of
  returning \<open>null\<close>.
\<close>

theorem getVideoMetadata_counterexample:
  "[CHR ''a'', CHR 0x00] \<notin> set (map video_id (videos (db fresh_proc))) \<and>
   fst (getVideoMetadata example_env [CHR ''a'', CHR 0x00] fresh_proc) = Inl InvalidByteSequence"
  by (simp add: getVideoMetadata_available[OF db_available_example] no_nul_def fresh_proc_simps)

text \<open>
  Claim C5, amended. Let the store be reachable. For an ID with the character NUL
  \<open>getVideoMetadata\<close> fails with the error of the store. For an ID without NUL that the
  table does not hold, it returns \<open>null\<close> and no error, also after any sequence of store
  calls in which \<open>storeVideo\<close> is never called with an ID that, cut to 255 characters as
  the column \<open>VARCHAR(255)\<close> holds it, equals that ID. For an ID without NUL that the table
  holds, it returns a record with that ID, with the title, description and URL of a row
  of that ID, with the stored date or the empty string, with the stored duration or zero,
  and with \<open>viewCount\<close> zero.
\<close>

theorem getVideoMetadata_absent_or_full:
  assumes "db_available e s"
  shows "(\<not> no_nul i \<longrightarrow>
           (\<forall>cs. fst (getVideoMetadata e i (run_calls e cs s)) = Inl InvalidByteSequence)) \<and>
         (no_nul i \<and> i \<notin> set (map video_id (videos (db s))) \<longrightarrow>
           (\<forall>cs. (\<forall>m. StoreVideo m \<in> set cs \<longrightarrow> take 255 (id' m) \<noteq> i) \<longrightarrow>
              fst (getVideoMetadata e i (run_calls e cs s)) = Inr None)) \<and>
         (no_nul i \<and> i \<in> set (map video_id (videos (db s))) \<longrightarrow>
           (\<exists>md r. fst (getVideoMetadata e i s) = Inr (Some md) \<and> viewCount md = 0 \<and>
              r \<in> set (videos (db s)) \<and> video_id r = i \<and> id' md = i \<and>
              title md = Some (title_c r) \<and> description md = description_c r \<and>
              publishedDate md = Some (case published_date r of None \<Rightarrow> [] | Some d \<Rightarrow> d) \<and>
              durationInSeconds md = Some (case duration_seconds r of None \<Rightarrow> 0 | Some n \<Rightarrow> n) \<and>
              url md = url_c r))"
proof (intro conjI impI allI)
  fix cs
  assume "\<not> no_nul i"
  have av: "db_available e (run_calls e cs s)" using assms by (rule run_calls_available)
  from \<open>\<not> no_nul i\<close> show "fst (getVideoMetadata e i (run_calls e cs s)) = Inl InvalidByteSequence"
    by (simp add: getVideoMetadata_available[OF av])
next
  fix cs
  assume a: "no_nul i \<and> i \<notin> set (map video_id (videos (db s)))"
    and cs: "\<forall>m. StoreVideo m \<in> set cs \<longrightarrow> take 255 (id' m) \<noteq> i"
  from a have nn: "no_nul i" and no: "i \<notin> set (map video_id (videos (db s)))" by simp_all
  have av: "db_available e (run_calls e cs s)" using assms by (rule run_calls_available)
  from no cs have "i \<notin> set (map video_id (videos (db (run_calls e cs s))))"
    by (rule run_calls_no_video)
  then have "filter (\<lambda>r. video_id r = i) (videos (db (run_calls e cs s))) = []"
    by (auto simp: filter_empty_conv)
  with nn show "fst (getVideoMetadata e i (run_calls e cs s)) = Inr None"
    by (simp add: getVideoMetadata_available[OF av])
next
  assume a: "no_nul i \<and> i \<in> set (map video_id (videos (db s)))"
  then have nn: "no_nul i" by simp
  from a have "filter (\<lambda>r. video_id r = i) (videos (db s)) \<noteq> []"
    by (auto simp: filter_empty_conv)
  then obtain row rest where f: "filter (\<lambda>r. video_id r = i) (videos (db s)) = row # rest"
    by (cases "filter (\<lambda>r. video_id r = i) (videos (db s))") auto
  then have "row \<in> set (filter (\<lambda>r. video_id r = i) (videos (db s)))" by simp
  then have row: "row \<in> set (videos (db s))" "video_id row = i" by simp_all
  let ?md = "\<lparr>id' = video_id row, title = Some (title_c row),
                     description = description_c row,
                     publishedDate = Some (or_empty (published_date row)),
                     durationInSeconds = Some (or_zero (duration_seconds row)),
                     viewCount = 0, url = url_c row\<rparr>"
  have g: "fst (getVideoMetadata e i s) = Inr (Some ?md)"
    using nn by (simp add: getVideoMetadata_available[OF assms] f)
  have "viewCount ?md = 0 \<and> id' ?md = i \<and>
      title ?md = Some (title_c row) \<and> description ?md = description_c row \<and>
      publishedDate ?md = Some (case published_date row of None \<Rightarrow> [] | Some d \<Rightarrow> d) \<and>
      durationInSeconds ?md = Some (case duration_seconds row of None \<Rightarrow> 0 | Some n \<Rightarrow> n) \<and>
      url ?md = url_c row"
    using row(2) by (simp add: or_empty_def or_zero_def split: option.splits)
  with g row show "\<exists>md r. fst (getVideoMetadata e i s) = Inr (Some md) \<and> viewCount md = 0 \<and>
              r \<in> set (videos (db s)) \<and> video_id r = i \<and> id' md = i \<and>
              title md = Some (title_c r) \<and> description md = description_c r \<and>
              publishedDate md = Some (case published_date r of None \<Rightarrow> [] | Some d \<Rightarrow> d) \<and>
              durationInSeconds md = Some (case duration_seconds r of None \<Rightarrow> 0 | Some n \<Rightarrow> n) \<and>
              url md = url_c r"
    by blast
qed

text \<open>
  The theorem on a store that holds one video: an ID with NUL gives the error, another ID
  gives \<open>null\<close>, the ID of the video gives its record with \<open>viewCount\<close> zero.
\<close>

theorem getVideoMetadata_absent_or_full_witness:
  "db_available example_env stored_proc \<and>
   \<not> no_nul [CHR ''a'', CHR 0x00] \<and>
   fst (getVideoMetadata example_env [CHR ''a'', CHR 0x00] (run_calls example_env [] stored_proc)) =
     Inl InvalidByteSequence \<and>
   no_nul ''9bZkp7q19f0'' \<and>
   ''9bZkp7q19f0'' \<notin> set (map video_id (videos (db stored_proc))) \<and>
   fst (getVideoMetadata example_env ''9bZkp7q19f0'' (run_calls example_env [] stored_proc)) =
     Inr None \<and>
   no_nul ''dQw4w9WgXcQ'' \<and>
   ''dQw4w9WgXcQ'' \<in> set (map video_id (videos (db stored_proc))) \<and>
   fst (getVideoMetadata example_env ''dQw4w9WgXcQ'' stored_proc) =
     Inr (Some \<lparr>id' = ''dQw4w9WgXcQ'', title = Some ''A title'', description = None,
                publishedDate = Some [], durationInSeconds = Some 0, viewCount = 0,
                url = ''https://youtube.com/watch?v=dQw4w9WgXcQ''\<rparr>)"
proof -
  have av: "db_available example_env stored_proc"
    by (simp add: db_available_def stored_proc_simps)
  have z: "\<not> no_nul [CHR ''a'', CHR 0x00]" by (simp add: no_nul_def)
  have nn: "no_nul ''9bZkp7q19f0''" "no_nul ''dQw4w9WgXcQ''" by (simp_all add: no_nul_def)
  have n: "''9bZkp7q19f0'' \<notin> set (map video_id (videos (db stored_proc)))"
    and y: "''dQw4w9WgXcQ'' \<in> set (map video_id (videos (db stored_proc)))"
    by (simp_all add: stored_proc_simps)
  from getVideoMetadata_absent_or_full[OF av, of "[CHR ''a'', CHR 0x00]", THEN conjunct1,
      THEN mp, OF z, THEN spec, of "[]"]
  have 1: "fst (getVideoMetadata example_env [CHR ''a'', CHR 0x00]
      (run_calls example_env [] stored_proc)) = Inl InvalidByteSequence" .
  from getVideoMetadata_absent_or_full[OF av, of "''9bZkp7q19f0''", THEN conjunct2,
      THEN conjunct1, THEN mp, OF conjI[OF nn(1) n], THEN spec, of "[]"]
  have 2: "fst (getVideoMetadata example_env ''9bZkp7q19f0'' (run_calls example_env [] stored_proc)) =
     Inr None" by simp
  from av z nn n y 1 2 show ?thesis by (simp add: getVideoMetadata_stored_example)
qed

section \<open>Creating the pool\<close>

lemma attempts_events_take:
  assumes "j < 5"
  shows "attempts_events 2000 (Suc j) =
     take (2 * j + 1)
       [EConnect, EDelay 2000, EConnect, EDelay 2000, EConnect, EDelay 2000, EConnect,
        EDelay 2000, EConnect]"
proof -
  from assms have "j = 0 \<or> j = 1 \<or> j = 2 \<or> j = 3 \<or> j = 4" by arith
  then show ?thesis
    by (elim disjE) (simp_all add: eval_nat_numeral)
qed

lemma attempts_events_5:
  "attempts_events 2000 5 =
     [EConnect, EDelay 2000, EConnect, EDelay 2000, EConnect, EDelay 2000, EConnect,
      EDelay 2000, EConnect]"
  by (simp add: eval_nat_numeral)

lemma ensure_pool_success:
  assumes "pool s = None" and "j < 5" and "connect e (conn_attempts s + j) = None"
    and "\<forall>k<j. connect e (conn_attempts s + k) \<noteq> None"
  shows "ensure_pool e s =
      (Inr (), create_tables (s\<lparr>conn_attempts := Suc (conn_attempts s + j),
        trace := trace s @ attempts_events 2000 (Suc j), pool := Some (conn_attempts s + j)\<rparr>))"
proof -
  from assms(2) have "0 + j < 5" by simp
  then have "connect_loop e 5 2000 0 s =
     (Inr (conn_attempts s + j),
      s\<lparr>conn_attempts := Suc (conn_attempts s + j),
        trace := trace s @ attempts_events 2000 (Suc j)\<rparr>)"
    using assms(3,4) by (rule connect_loop_ok)
  then show ?thesis
    using assms(1)
    by (simp add: ensure_pool_def initializeDatabase_def connectWithRetry_def
        del: connect_loop.simps)
qed

lemma ensure_pool_failure:
  assumes "pool s = None" and "\<forall>k<5. connect e (conn_attempts s + k) \<noteq> None"
    and "connect e (conn_attempts s + 4) = Some msg"
  shows "ensure_pool e s =
     (Inl (ConnectionError msg),
      s\<lparr>conn_attempts := conn_attempts s + 5, trace := trace s @ attempts_events 2000 5\<rparr>)"
proof -
  have "connect_loop e 5 2000 0 s =
     (Inl (ConnectionError msg),
      s\<lparr>conn_attempts := conn_attempts s + 5, trace := trace s @ attempts_events 2000 5\<rparr>)"
    using assms(2,3) by (intro connect_loop_fail) simp_all
  then show ?thesis
    using assms(1)
    by (simp add: ensure_pool_def initializeDatabase_def connectWithRetry_def
        del: connect_loop.simps)
qed

text \<open>
  Claim C8. On the first access (the pool does not exist yet) the connection loop runs
  with a budget of 5 attempts and a delay of 2000 milliseconds. When attempt \<open>j + 1\<close> is
  the first to succeed, for a \<open>j\<close> below 5, the access succeeds with the pool of that
  attempt after exactly \<open>j + 1\<close> attempts, each but the first preceded by one delay of
  2000 milliseconds, and the three tables are created. When the five attempts all fail,
  the access fails with the connection error of the fifth attempt, after exactly five
  attempts and four delays, and no pool exists. In every case at least one and at most
  five attempts are made.
\<close>

theorem pool_creation:
  assumes "pool s = None"
  shows "(\<forall>j<5. connect e (conn_attempts s + j) = None \<and>
                 (\<forall>k<j. connect e (conn_attempts s + k) \<noteq> None) \<longrightarrow>
            fst (ensure_pool e s) = Inr () \<and>
            pool (snd (ensure_pool e s)) = Some (conn_attempts s + j) \<and>
            conn_attempts (snd (ensure_pool e s)) = conn_attempts s + j + 1 \<and>
            trace (snd (ensure_pool e s)) =
              trace s @
              take (2 * j + 1)
                [EConnect, EDelay 2000, EConnect, EDelay 2000, EConnect, EDelay 2000, EConnect,
                 EDelay 2000, EConnect] @
              [ECreateTable ''videos'', ECreateTable ''transcripts'', ECreateTable ''analysis'']) \<and>
         ((\<forall>k<5. connect e (conn_attempts s + k) \<noteq> None) \<longrightarrow>
            (\<exists>msg. connect e (conn_attempts s + 4) = Some msg \<and>
                   fst (ensure_pool e s) = Inl (ConnectionError msg)) \<and>
            pool (snd (ensure_pool e s)) = None \<and>
            conn_attempts (snd (ensure_pool e s)) = conn_attempts s + 5 \<and>
            trace (snd (ensure_pool e s)) =
              trace s @
              [EConnect, EDelay 2000, EConnect, EDelay 2000, EConnect, EDelay 2000, EConnect,
               EDelay 2000, EConnect]) \<and>
         conn_attempts s < conn_attempts (snd (ensure_pool e s)) \<and>
         conn_attempts (snd (ensure_pool e s)) \<le> conn_attempts s + 5"
proof -
  have ok: "fst (ensure_pool e s) = Inr () \<and>
            pool (snd (ensure_pool e s)) = Some (conn_attempts s + j) \<and>
            conn_attempts (snd (ensure_pool e s)) = conn_attempts s + j + 1 \<and>
            trace (snd (ensure_pool e s)) =
              trace s @
              take (2 * j + 1)
                [EConnect, EDelay 2000, EConnect, EDelay 2000, EConnect, EDelay 2000, EConnect,
                 EDelay 2000, EConnect] @
              [ECreateTable ''videos'', ECreateTable ''transcripts'', ECreateTable ''analysis'']"
    if j: "j < 5" and h1: "connect e (conn_attempts s + j) = None"
      and h2: "\<forall>k<j. connect e (conn_attempts s + k) \<noteq> None" for j
    by (simp only: attempts_events_take[OF j, symmetric])
       (simp add: ensure_pool_success[OF assms j h1 h2] create_tables_def emit_def)
  have bad: "(\<exists>msg. connect e (conn_attempts s + 4) = Some msg \<and>
                   fst (ensure_pool e s) = Inl (ConnectionError msg)) \<and>
            pool (snd (ensure_pool e s)) = None \<and>
            conn_attempts (snd (ensure_pool e s)) = conn_attempts s + 5 \<and>
            trace (snd (ensure_pool e s)) =
              trace s @
              [EConnect, EDelay 2000, EConnect, EDelay 2000, EConnect, EDelay 2000, EConnect,
               EDelay 2000, EConnect]"
    if all: "\<forall>k<5. connect e (conn_attempts s + k) \<noteq> None"
  proof -
    from all have "connect e (conn_attempts s + 4) \<noteq> None" by simp
    then obtain msg where msg: "connect e (conn_attempts s + 4) = Some msg" by auto
    note en = ensure_pool_failure[OF assms all msg]
    from msg assms show ?thesis
      by (simp only: attempts_events_5[symmetric]) (simp add: en)
  qed
  have bound: "conn_attempts s < conn_attempts (snd (ensure_pool e s)) \<and>
      conn_attempts (snd (ensure_pool e s)) \<le> conn_attempts s + 5"
  proof (cases "list_ex (\<lambda>j. connect e (conn_attempts s + j) = None) [0..<5]")
    case True
    then obtain j where j: "j < 5" "connect e (conn_attempts s + j) = None"
      "\<forall>k<j. connect e (conn_attempts s + k) \<noteq> None"
      by (rule first_success)
    from ok[OF j] j(1) show ?thesis by simp
  next
    case False
    then have "\<forall>k<5. connect e (conn_attempts s + k) \<noteq> None"
      by (simp add: list_ex_iff)
    from bad[OF this] show ?thesis by simp
  qed
  from ok bad bound show ?thesis by blast
qed

text \<open>
  The theorem on a fresh process, in the world where the third attempt is the first to
  succeed and in the world where none does.
\<close>

theorem pool_creation_witness:
  "pool fresh_proc = None \<and>
   connect flaky_env 0 = Some ''ECONNREFUSED'' \<and> connect flaky_env 1 = Some ''ECONNREFUSED'' \<and>
   connect flaky_env 2 = None \<and>
   fst (ensure_pool flaky_env fresh_proc) = Inr () \<and>
   pool (snd (ensure_pool flaky_env fresh_proc)) = Some 2 \<and>
   trace (snd (ensure_pool flaky_env fresh_proc)) =
     [EConnect, EDelay 2000, EConnect, EDelay 2000, EConnect,
      ECreateTable ''videos'', ECreateTable ''transcripts'', ECreateTable ''analysis''] \<and>
   fst (ensure_pool offline_env fresh_proc) = Inl (ConnectionError ''ECONNREFUSED'') \<and>
   trace (snd (ensure_pool offline_env fresh_proc)) =
     [EConnect, EDelay 2000, EConnect, EDelay 2000, EConnect, EDelay 2000, EConnect,
      EDelay 2000, EConnect]"
proof -
  have p: "pool fresh_proc = None" by (simp add: fresh_proc_simps)
  have f: "connect flaky_env 0 = Some ''ECONNREFUSED''" "connect flaky_env 1 = Some ''ECONNREFUSED''"
    "connect flaky_env 2 = None"
    by (simp_all add: flaky_env_def)
  have h: "connect flaky_env (conn_attempts fresh_proc + 2) = None \<and>
      (\<forall>k<2. connect flaky_env (conn_attempts fresh_proc + k) \<noteq> None)"
    by (simp add: flaky_env_def fresh_proc_simps)
  have o: "\<forall>k<5. connect offline_env (conn_attempts fresh_proc + k) \<noteq> None"
    by (simp add: offline_env_def)
  have o4: "connect offline_env (conn_attempts fresh_proc + 4) = Some ''ECONNREFUSED''"
    by (simp add: offline_env_def)
  have two: "(2::nat) < 5" by simp
  from pool_creation[OF p, of flaky_env, THEN conjunct1, THEN spec, of 2, THEN mp, OF two,
      THEN mp, OF h]
  have a: "fst (ensure_pool flaky_env fresh_proc) = Inr () \<and>
     pool (snd (ensure_pool flaky_env fresh_proc)) = Some 2 \<and>
     trace (snd (ensure_pool flaky_env fresh_proc)) =
     [EConnect, EDelay 2000, EConnect, EDelay 2000, EConnect,
      ECreateTable ''videos'', ECreateTable ''transcripts'', ECreateTable ''analysis'']"
    by (simp add: fresh_proc_simps)
  from pool_creation[OF p, of offline_env, THEN conjunct2, THEN conjunct1, THEN mp, OF o] o4
  have b: "fst (ensure_pool offline_env fresh_proc) = Inl (ConnectionError ''ECONNREFUSED'') \<and>
   trace (snd (ensure_pool offline_env fresh_proc)) =
     [EConnect, EDelay 2000, EConnect, EDelay 2000, EConnect, EDelay 2000, EConnect,
      EDelay 2000, EConnect]"
    by (auto simp: fresh_proc_simps)
  from p f a b show ?thesis by simp
qed

section \<open>Usage\<close>

lemma parseArgs_no_flags:
  "''--disease'' \<notin> set args \<Longrightarrow> ''--video-id'' \<notin> set args \<Longrightarrow>
   disease (parseArgs e args opts) = disease opts \<and> videoId (parseArgs e args opts) = videoId opts"
proof (induction e args opts rule: parseArgs.induct)
  case (1 e opts)
  then show ?case by simp
next
  case (2 e a opts)
  then show ?case by simp
next
  case (3 e a b rest opts)
  then show ?case by auto
qed

text \<open>
  Claim C7. When neither \<open>--disease\<close> nor \<open>--video-id\<close> is among the arguments, \<open>main\<close> ends
  with exit code 1 and leaves the process and the store exactly as they were: no
  connection attempt, no table created, no fetch call, no store call, no output.
\<close>

theorem main_usage:
  assumes "''--disease'' \<notin> set args" and "''--video-id'' \<notin> set args"
  shows "main e args s = (1, s)"
proof -
  from parseArgs_no_flags[OF assms, of e no_options]
  have "\<not> given (disease (parseArgs e args no_options))"
    "\<not> given (videoId (parseArgs e args no_options))"
    by (simp_all add: no_options_def given_def)
  then show ?thesis by (simp add: main_def)
qed

text \<open>The theorem for a command line with two other flags.\<close>

theorem main_usage_witness:
  "''--disease'' \<notin> set [''--max-results'', ''5'', ''--output-file'', ''out.json''] \<and>
   ''--video-id'' \<notin> set [''--max-results'', ''5'', ''--output-file'', ''out.json''] \<and>
   main example_env [''--max-results'', ''5'', ''--output-file'', ''out.json''] fresh_proc =
     (1, fresh_proc)"
  using main_usage[of "[''--max-results'', ''5'', ''--output-file'', ''out.json'']"
      example_env fresh_proc]
  by simp

section \<open>What a run adds to the trace\<close>

lemma connect_loop_trace:
  "\<exists>evs. trace (snd (connect_loop e retries i attempt s)) = trace s @ evs \<and>
         set evs \<subseteq> {EConnect, EDelay i}"
proof (induction e retries i attempt s rule: connect_loop.induct)
  case (1 e retries retryInterval attempt s)
  show ?case
  proof (cases "attempt < retries")
    case False
    then show ?thesis by (subst connect_loop.simps) simp
  next
    case True
    show ?thesis
    proof (cases "connect e (conn_attempts s)")
      case None
      with True show ?thesis
        by (subst connect_loop.simps) (simp add: Let_def emit_def)
    next
      case (Some msg)
      show ?thesis
      proof (cases "retries \<le> Suc attempt")
        case True
        with \<open>attempt < retries\<close> Some show ?thesis
          by (subst connect_loop.simps) (simp add: Let_def emit_def)
      next
        case False
        let ?s1 = "emit (EDelay retryInterval) (emit EConnect (s\<lparr>conn_attempts := Suc (conn_attempts s)\<rparr>))"
        from "1.IH"[OF \<open>attempt < retries\<close> refl refl Some False]
        obtain evs where evs: "trace (snd (connect_loop e retries retryInterval (Suc attempt) ?s1)) =
            trace ?s1 @ evs" "set evs \<subseteq> {EConnect, EDelay retryInterval}" by blast
        have "trace (snd (connect_loop e retries retryInterval attempt s)) =
            trace s @ (EConnect # EDelay retryInterval # evs)"
          using \<open>attempt < retries\<close> Some False evs(1)
          by (subst connect_loop.simps) (simp add: Let_def emit_def)
        moreover have "set (EConnect # EDelay retryInterval # evs) \<subseteq> {EConnect, EDelay retryInterval}"
          using evs(2) by auto
        ultimately show ?thesis by blast
      qed
    qed
  qed
qed

lemma connect_loop_fetch:
  "filter is_fetch (trace (snd (connect_loop e retries i attempt s))) = filter is_fetch (trace s)"
proof -
  from connect_loop_trace[of e retries i attempt s] obtain evs where
    evs: "trace (snd (connect_loop e retries i attempt s)) = trace s @ evs"
      "set evs \<subseteq> {EConnect, EDelay i}" by blast
  from evs(2) have "filter is_fetch evs = []"
    by (auto simp: filter_empty_conv)
  with evs(1) show ?thesis by simp
qed

lemma initializeDatabase_fetch:
  "filter is_fetch (trace (snd (initializeDatabase e s))) = filter is_fetch (trace s)"
proof (cases "pool s")
  case (Some p)
  then show ?thesis by (simp add: initializeDatabase_def create_tables_def emit_def)
next
  case None
  obtain r s1 where c: "connect_loop e 5 2000 0 s = (r, s1)" by (cases "connect_loop e 5 2000 0 s")
  with connect_loop_fetch[of e 5 2000 0 s] have "filter is_fetch (trace s1) = filter is_fetch (trace s)"
    by simp
  with None c show ?thesis
    by (cases r) (simp_all add: initializeDatabase_def connectWithRetry_def create_tables_def emit_def
        del: connect_loop.simps)
qed

lemma initializeDatabase_pool:
  "fst (initializeDatabase e s) = Inr u \<Longrightarrow> pool (snd (initializeDatabase e s)) \<noteq> None"
proof (cases "pool s")
  case (Some p)
  then show ?thesis by (simp add: initializeDatabase_def create_tables_def emit_def)
next
  case None
  assume a: "fst (initializeDatabase e s) = Inr u"
  obtain r s1 where c: "connect_loop e 5 2000 0 s = (r, s1)" by (cases "connect_loop e 5 2000 0 s")
  with None a show ?thesis
    by (cases r) (simp_all add: initializeDatabase_def connectWithRetry_def create_tables_def emit_def
        del: connect_loop.simps)
qed

lemma storeVideo_pooled:
  assumes "pool s = Some p"
  shows "storeVideo e m s =
     (case upsert_video e (id' m) (title m) (description m) (or_null_str (publishedDate m))
             (or_null_num (durationInSeconds m)) (Some (canonical_url (id' m))) (db s) of
        Inl err \<Rightarrow> (Inl err, s)
      | Inr d \<Rightarrow> (Inr (), s\<lparr>db := d\<rparr>))"
  using assms by (simp add: storeVideo_def ensure_pool_def run_statement_def)

lemma storeVideo_pooled_valid:
  assumes "pool s = Some p" "valid_metadata e m" "title m = Some t"
  shows "storeVideo e m s = (Inr (), s\<lparr>db := put_video (video_params m t) (db s)\<rparr>)"
  by (simp only: storeVideo_pooled[OF assms(1)] upsert_video_valid[OF assms(2,3)]) simp

lemma storeVideo_pooled_invalid:
  assumes "pool s = Some p" "\<not> valid_metadata e m"
  shows "\<exists>err. storeVideo e m s = (Inl err, s)"
proof -
  from upsert_video_invalid[OF assms(2), of "db s"] obtain err where
    "upsert_video e (id' m) (title m) (description m) (or_null_str (publishedDate m))
       (or_null_num (durationInSeconds m)) (Some (canonical_url (id' m))) (db s) = Inl err" ..
  then have "storeVideo e m s = (Inl err, s)"
    by (simp only: storeVideo_pooled[OF assms(1)]) simp
  then show ?thesis ..
qed

lemma store_loop_all:
  assumes "pool s = Some p"
  shows "store_loop e vs s =
     s\<lparr>db := foldl (\<lambda>d v. store_or_skip e v d) (db s) vs,
       trace := trace s @ concat (map (store_events e) vs)\<rparr>"
  using assms
proof (induction vs arbitrary: s)
  case Nil
  then show ?case by simp
next
  case (Cons v vs)
  let ?a = "emit (EStoreVideo (id' v)) s"
  have pa: "pool ?a = Some p" using Cons.prems by (simp add: emit_def)
  show ?case
  proof (cases "valid_metadata e v")
    case True
    then obtain t where t: "title v = Some t"
      by (cases "title v") (auto simp: valid_metadata_def)
    let ?b = "emit (ELogStored (id' v)) (?a\<lparr>db := put_video (video_params v t) (db ?a)\<rparr>)"
    have pb: "pool ?b = Some p" using Cons.prems by (simp add: emit_def)
    have "store_loop e (v # vs) s = store_loop e vs ?b"
      by (simp add: storeVideo_pooled_valid[OF pa True t])
    also have "\<dots> = ?b\<lparr>db := foldl (\<lambda>d v. store_or_skip e v d) (db ?b) vs,
       trace := trace ?b @ concat (map (store_events e) vs)\<rparr>"
      using pb by (rule Cons.IH)
    also have "\<dots> = s\<lparr>db := foldl (\<lambda>d v. store_or_skip e v d) (db s) (v # vs),
       trace := trace s @ concat (map (store_events e) (v # vs))\<rparr>"
      using True t by (simp add: emit_def store_or_skip_def store_events_def)
    finally show ?thesis .
  next
    case False
    from storeVideo_pooled_invalid[OF pa False] obtain err where
      sv: "storeVideo e v ?a = (Inl err, ?a)" ..
    let ?b = "emit (ELogStoreError (id' v)) ?a"
    have pb: "pool ?b = Some p" using Cons.prems by (simp add: emit_def)
    have "store_loop e (v # vs) s = store_loop e vs ?b"
      by (simp add: sv)
    also have "\<dots> = ?b\<lparr>db := foldl (\<lambda>d v. store_or_skip e v d) (db ?b) vs,
       trace := trace ?b @ concat (map (store_events e) vs)\<rparr>"
      using pb by (rule Cons.IH)
    also have "\<dots> = s\<lparr>db := foldl (\<lambda>d v. store_or_skip e v d) (db s) (v # vs),
       trace := trace s @ concat (map (store_events e) (v # vs))\<rparr>"
      using False by (simp add: emit_def store_or_skip_def store_events_def split: option.splits)
    finally show ?thesis .
  qed
qed

lemma store_events_fetch: "filter is_fetch (concat (map (store_events e) vs)) = []"
  by (induction vs) (simp_all add: store_events_def)

lemma store_loop_pooled:
  assumes "pool s \<noteq> None"
  shows "pool (store_loop e vs s) \<noteq> None \<and>
         filter is_fetch (trace (store_loop e vs s)) = filter is_fetch (trace s)"
proof -
  from assms obtain p where p: "pool s = Some p" by auto
  show ?thesis by (simp add: store_loop_all[OF p] store_events_fetch p)
qed

lemma stdout_loop_trace: "stdout_loop vs s = s\<lparr>trace := trace s @ map EStdout vs\<rparr>"
  by (induction vs arbitrary: s) (simp_all add: emit_def)

lemma output_phase_fetch:
  "filter is_fetch (trace (snd (output_phase e opts od s))) = filter is_fetch (trace s)"
proof -
  have "filter is_fetch (map EStdout od) = []" by (induction od) simp_all
  then show ?thesis
    by (simp add: output_phase_def Let_def emit_def stdout_loop_trace)
qed

lemma collect_all: "collect vs acc = acc @ vs"
  by (induction vs arbitrary: acc) simp_all

lemma initializeDatabase_first:
  assumes "pool s = None" "connect e (conn_attempts s) = None"
  shows "initializeDatabase e s =
     (Inr (), s\<lparr>pool := Some (conn_attempts s), conn_attempts := Suc (conn_attempts s),
        trace := trace s @ [EConnect, ECreateTable ''videos'', ECreateTable ''transcripts'',
                  ECreateTable ''analysis'']\<rparr>)"
  using assms
  by (simp add: initializeDatabase_def connectWithRetry_def create_tables_def emit_def Let_def)

lemma initializeDatabase_fresh:
  assumes "connect e 0 = None"
  shows "initializeDatabase e fresh_proc =
     (Inr (), \<lparr>pool = Some 0, conn_attempts = Suc 0,
        db = \<lparr>videos = [], transcripts = [], analysis = []\<rparr>,
        trace = [EConnect, ECreateTable ''videos'', ECreateTable ''transcripts'',
                  ECreateTable ''analysis'']\<rparr>)"
  using assms
  by (simp add: initializeDatabase_first fresh_proc_def)

lemma example_envs_connect:
  "connect example_env 0 = None" "connect single_env 0 = None" "connect search_env 0 = None"
  by (simp_all add: example_env_def single_env_def search_env_def)

lemma parse_both_example:
  "parseArgs e [''--disease'', ''flu'', ''--video-id'', v] no_options =
     \<lparr>disease = Some ''flu'', maxResults = None, outputFile = None, videoIdsFile = None,
      videoId = Some v\<rparr>"
  by (simp add: no_options_def)

section \<open>A single video before a search\<close>

text \<open>
  Claim C10, as the specification states it, fails: a \<open>--video-id\<close> flag whose value is the
  empty string is falsy in \<open>if (options.videoId)\<close>. With \<open>--disease flu --video-id ""\<close> both
  options are set, the keyword search for \<open>flu\<close> is issued and no video is fetched by ID.
\<close>

theorem single_video_first_counterexample:
  "disease (parseArgs example_env [''--disease'', ''flu'', ''--video-id'', []] no_options) =
     Some ''flu'' \<and>
   videoId (parseArgs example_env [''--disease'', ''flu'', ''--video-id'', []] no_options) =
     Some [] \<and>
   trace (snd (main example_env [''--disease'', ''flu'', ''--video-id'', []] fresh_proc)) =
     [EConnect, ECreateTable ''videos'', ECreateTable ''transcripts'', ECreateTable ''analysis'',
      ESearchDiseaseVideos ''flu'' 1000]"
  by (simp add: main_def no_options_def given_def or_empty_def or_null_num_def
      initializeDatabase_fresh example_envs_connect fetch_videos_def Let_def emit_def)
     (simp add: example_env_def)

text \<open>
  Claim C10, amended. When \<open>--video-id\<close> was given a non-empty value, with or without
  \<open>--disease\<close>, the run issues no keyword search; it fetches the details of that video
  exactly once when the initialisation of the database succeeds, and makes no fetch call
  at all when it fails.
\<close>

theorem single_video_first:
  assumes "videoId (parseArgs e args no_options) = Some v" and "v \<noteq> []"
  shows "filter is_fetch (trace (snd (main e args s))) =
           filter is_fetch (trace s) @
           (if fst (initializeDatabase e s) = Inr () then [EGetVideoDetails v] else [])"
proof -
  let ?opts = "parseArgs e args no_options"
  from assms have g: "given (videoId ?opts)" "or_empty (videoId ?opts) = v"
    by (simp_all add: given_def or_empty_def)
  obtain r s1 where i: "initializeDatabase e s = (r, s1)" by (cases "initializeDatabase e s")
  with initializeDatabase_fetch[of e s] have t1: "filter is_fetch (trace s1) = filter is_fetch (trace s)"
    by simp
  show ?thesis
  proof (cases r)
    case (Inl err)
    with i g t1 show ?thesis by (simp add: main_def)
  next
    case (Inr u)
    with i initializeDatabase_pool[of e s u] have p1: "pool s1 \<noteq> None" by simp
    let ?s2 = "emit (EGetVideoDetails v) s1"
    have t2: "filter is_fetch (trace ?s2) = filter is_fetch (trace s) @ [EGetVideoDetails v]"
      using t1 by (simp add: emit_def)
    have p2: "pool ?s2 \<noteq> None" using p1 by (simp add: emit_def)
    show ?thesis
    proof (cases "getVideoDetails e v")
      case (Inl msg)
      with i Inr g t2 show ?thesis by (simp add: main_def fetch_videos_def Let_def)
    next
      case found: (Inr found)
      show ?thesis
      proof (cases found)
        case None
        with i Inr g t2 found show ?thesis by (simp add: main_def fetch_videos_def Let_def)
      next
        case (Some video)
        have f: "fetch_videos e ?opts s1 = (Inr [video], ?s2)"
          using g found Some by (simp add: fetch_videos_def Let_def)
        obtain r4 s4 where o: "output_phase e ?opts [video] (store_loop e [video] ?s2) = (r4, s4)"
          by (cases "output_phase e ?opts [video] (store_loop e [video] ?s2)")
        from output_phase_fetch[of e ?opts "[video]" "store_loop e [video] ?s2"] o
          store_loop_pooled[OF p2, of e "[video]"] t2
        have t4: "filter is_fetch (trace s4) = filter is_fetch (trace s) @ [EGetVideoDetails v]"
          by simp
        have "snd (main e args s) = s4"
          using i Inr g f o
          by (cases r4) (simp_all add: main_def Let_def collect_all del: store_loop.simps)
        with t4 i Inr show ?thesis by simp
      qed
    qed
  qed
qed

text \<open>
  The theorem for \<open>--disease flu --video-id dQw4w9WgXcQ\<close> on a fresh process: the only
  fetch call is the one for the video.
\<close>

theorem single_video_first_witness:
  "videoId (parseArgs single_env [''--disease'', ''flu'', ''--video-id'', ''dQw4w9WgXcQ'']
      no_options) = Some ''dQw4w9WgXcQ'' \<and>
   fst (initializeDatabase single_env fresh_proc) = Inr () \<and>
   filter is_fetch (trace (snd (main single_env
      [''--disease'', ''flu'', ''--video-id'', ''dQw4w9WgXcQ''] fresh_proc))) =
     [EGetVideoDetails ''dQw4w9WgXcQ'']"
proof -
  have v: "videoId (parseArgs single_env [''--disease'', ''flu'', ''--video-id'', ''dQw4w9WgXcQ'']
      no_options) = Some ''dQw4w9WgXcQ''"
    by (simp add: parse_both_example)
  have n: "''dQw4w9WgXcQ'' \<noteq> []" by simp
  have i: "fst (initializeDatabase single_env fresh_proc) = Inr ()"
    by (simp add: initializeDatabase_fresh example_envs_connect)
  from single_video_first[OF v n, of fresh_proc] v i show ?thesis
    by (simp add: fresh_proc_simps)
qed

section \<open>The store loop\<close>

lemma fetch_videos_state:
  "pool (snd (fetch_videos e opts s)) = pool s \<and> db (snd (fetch_videos e opts s)) = db s"
  by (simp add: fetch_videos_def Let_def emit_def split: sum.splits option.splits)

lemma output_phase_result:
  "fst (output_phase e opts od s) = (if write_fails e opts then Inl WriteFileError else Inr ())"
  by (simp add: output_phase_def write_fails_def Let_def)

lemma output_phase_state:
  "\<exists>out. snd (output_phase e opts od s) = s\<lparr>trace := trace s @ out\<rparr>"
proof -
  have a: "\<exists>out. s\<lparr>trace := trace s @ x\<rparr> = s\<lparr>trace := trace s @ out\<rparr>" for x
    by blast
  have b: "\<exists>out. s = s\<lparr>trace := trace s @ out\<rparr>"
    by (rule exI[of _ "[]"]) simp
  show ?thesis
    by (simp add: output_phase_def Let_def emit_def stdout_loop_trace a b)
qed

lemma put_video_keeps:
  assumes "r \<in> set (videos d)" "video_id r \<noteq> video_id new"
  shows "r \<in> set (videos (put_video new d))"
proof -
  from assms(1) have "r \<in> set (filter (\<lambda>x. video_id x = video_id r) (videos d))" by simp
  then have "r \<in> set (filter (\<lambda>x. video_id x = video_id r) (videos (put_video new d)))"
    by (simp only: put_video_other_rows[OF assms(2)])
  then show ?thesis by simp
qed

lemma main_stores:
  assumes "opts = parseArgs e args no_options"
    and "given (disease opts) \<or> given (videoId opts)"
    and "initializeDatabase e s = (Inr (), s1)"
    and "fetch_videos e opts s1 = (Inr found, s2)"
  shows "fst (main e args s) = (if found = [] \<or> write_fails e opts then 1 else 0)"
    and "db (snd (main e args s)) = foldl (\<lambda>d v. store_or_skip e v d) (db s) found"
    and "\<exists>out. trace (snd (main e args s)) =
            trace s2 @ concat (map (store_events e) found) @ out"
proof -
  from assms(3) initializeDatabase_pool[of e s "()"] initializeDatabase_db[of e s]
  have s1: "pool s1 \<noteq> None" "db s1 = db s" by simp_all
  from assms(4) fetch_videos_state[of e opts s1] s1
  have "pool s2 \<noteq> None" and d2: "db s2 = db s" by simp_all
  then obtain p where p: "pool s2 = Some p" by auto
  let ?s3 = "store_loop e found s2"
  note s3 = store_loop_all[OF p, of e found]
  obtain r4 s4 where o: "output_phase e opts found ?s3 = (r4, s4)"
    by (cases "output_phase e opts found ?s3")
  from output_phase_result[of e opts found ?s3] o
  have r4: "r4 = (if write_fails e opts then Inl WriteFileError else Inr ())" by simp
  from output_phase_state[of e opts found ?s3] o obtain out where
    s4: "s4 = ?s3\<lparr>trace := trace ?s3 @ out\<rparr>" by auto
  have m: "main e args s = (if found = [] \<or> write_fails e opts then 1 else 0,
      if found = [] then s2 else s4)"
    using assms(1,2,3,4) o r4
    by (auto simp: main_def Let_def collect_all simp del: store_loop.simps)
  show "fst (main e args s) = (if found = [] \<or> write_fails e opts then 1 else 0)"
    by (simp add: m)
  show "db (snd (main e args s)) = foldl (\<lambda>d v. store_or_skip e v d) (db s) found"
    by (simp add: m s4 s3 d2 del: store_loop.simps)
  have "trace (snd (main e args s)) =
      trace s2 @ concat (map (store_events e) found) @ (if found = [] then [] else out)"
    by (simp add: m s4 s3 del: store_loop.simps)
  then show "\<exists>out. trace (snd (main e args s)) =
      trace s2 @ concat (map (store_events e) found) @ out" ..
qed

lemma search_env_valid:
  "valid_metadata search_env (example_video ''dQw4w9WgXcQ'' (Some ''One'') (Some 212))"
  "\<not> valid_metadata search_env (example_video ''9bZkp7q19f0'' None (Some 60))"
  "valid_metadata search_env (example_video ''kJQP7kiw5Fk'' (Some ''Three'') None)"
  by (simp_all add: valid_metadata_def example_video_def search_env_def example_env_def
      timestamp_param_ok_def int4_ok_def or_null_str_def or_null_num_def no_nul_def
      text_ok_def varchar_def)

lemma readonly_env_valid:
  "valid_metadata readonly_env m = valid_metadata search_env m"
  by (simp add: valid_metadata_def readonly_env_def timestamp_param_ok_def cong: option.case_cong)

lemma fetch_search_example:
  "fetch_videos search_env (parseArgs search_env [''--disease'', ''flu''] no_options) s =
     (Inr [example_video ''dQw4w9WgXcQ'' (Some ''One'') (Some 212),
           example_video ''9bZkp7q19f0'' None (Some 60),
           example_video ''kJQP7kiw5Fk'' (Some ''Three'') None],
      emit (ESearchDiseaseVideos ''flu'' 1000) s)"
  by (simp add: fetch_videos_def no_options_def given_def or_empty_def or_null_num_def Let_def
      search_env_def)

lemma fetch_readonly_example:
  "fetch_videos readonly_env
     (parseArgs readonly_env [''--disease'', ''flu'', ''--output-file'', ''out.json''] no_options) s =
     (Inr [example_video ''dQw4w9WgXcQ'' (Some ''One'') (Some 212),
           example_video ''9bZkp7q19f0'' None (Some 60),
           example_video ''kJQP7kiw5Fk'' (Some ''Three'') None],
      emit (ESearchDiseaseVideos ''flu'' 1000) s)"
  by (simp add: fetch_videos_def no_options_def given_def or_empty_def or_null_num_def Let_def
      search_env_def readonly_env_def)

lemma example_video_title: "title (example_video i t n) = t"
  by (simp add: example_video_def)

lemma three_stored_example:
  assumes "\<And>m. valid_metadata e m = valid_metadata search_env m"
  shows "foldl (\<lambda>d v. store_or_skip e v d) (db fresh_proc)
     [example_video ''dQw4w9WgXcQ'' (Some ''One'') (Some 212),
      example_video ''9bZkp7q19f0'' None (Some 60),
      example_video ''kJQP7kiw5Fk'' (Some ''Three'') None] =
   \<lparr>videos = [\<lparr>video_id = ''dQw4w9WgXcQ'', title_c = ''One'', description_c = Some [],
                published_date = Some ''2021-03-04T05:06:07Z'', duration_seconds = Some 212,
                url_c = ''https://youtube.com/watch?v=dQw4w9WgXcQ''\<rparr>,
              \<lparr>video_id = ''kJQP7kiw5Fk'', title_c = ''Three'', description_c = Some [],
                published_date = Some ''2021-03-04T05:06:07Z'', duration_seconds = None,
                url_c = ''https://youtube.com/watch?v=kJQP7kiw5Fk''\<rparr>],
     transcripts = [], analysis = []\<rparr>"
  by (simp add: store_or_skip_def example_video_title assms search_env_valid)
     (simp add: example_video_def put_video_def video_params_def fresh_proc_simps
        or_null_str_def or_null_num_def canonical_url_def)

text \<open>
  Claim C3, as the specification states it, fails: the exit code is not 0 when a file
  that the command line asks for cannot be written. The search returns three records,
  the second without a title, so that \<open>storeVideo\<close> fails for it; the command line is
  \<open>--disease flu --output-file out.json\<close> and the file cannot be written. The first and
  the third record are in the table, and the exit code is 1.
\<close>

theorem store_failure_not_fatal_counterexample:
  "searchDiseaseVideos readonly_env ''flu'' 1000 =
     Inr [example_video ''dQw4w9WgXcQ'' (Some ''One'') (Some 212),
          example_video ''9bZkp7q19f0'' None (Some 60),
          example_video ''kJQP7kiw5Fk'' (Some ''Three'') None] \<and>
   fst (storeVideo readonly_env (example_video ''9bZkp7q19f0'' None (Some 60)) fresh_proc) =
     Inl NotNullViolation \<and>
   map video_id (videos (db (snd (main readonly_env
      [''--disease'', ''flu'', ''--output-file'', ''out.json''] fresh_proc)))) =
     [''dQw4w9WgXcQ'', ''kJQP7kiw5Fk''] \<and>
   fst (main readonly_env [''--disease'', ''flu'', ''--output-file'', ''out.json''] fresh_proc) = 1"
proof -
  let ?args = "[''--disease'', ''flu'', ''--output-file'', ''out.json'']"
  let ?opts = "parseArgs readonly_env ?args no_options"
  have c: "connect readonly_env 0 = None"
    by (simp add: readonly_env_def search_env_def example_env_def)
  have 1: "searchDiseaseVideos readonly_env ''flu'' 1000 =
     Inr [example_video ''dQw4w9WgXcQ'' (Some ''One'') (Some 212),
          example_video ''9bZkp7q19f0'' None (Some 60),
          example_video ''kJQP7kiw5Fk'' (Some ''Three'') None]"
    by (simp add: readonly_env_def search_env_def)
  have 2: "fst (storeVideo readonly_env (example_video ''9bZkp7q19f0'' None (Some 60))
      fresh_proc) = Inl NotNullViolation"
    by (simp add: storeVideo_def ensure_pool_def fresh_proc_simps initializeDatabase_fresh[OF c]
        run_statement_def upsert_video_def video_values_def no_nul_def text_ok_def varchar_def
        example_video_def or_null_str_def or_null_num_def timestamp_param_ok_def int4_ok_def
        canonical_url_def)
       (simp add: readonly_env_def search_env_def example_env_def)
  have g: "given (disease ?opts) \<or> given (videoId ?opts)"
    by (simp add: no_options_def given_def)
  have w: "write_fails readonly_env ?opts"
    by (simp add: write_fails_def no_options_def given_def or_empty_def readonly_env_def)
  note i = initializeDatabase_fresh[OF c]
  note m = main_stores[OF refl g i fetch_readonly_example]
  have 3: "map video_id (videos (db (snd (main readonly_env ?args fresh_proc)))) =
     [''dQw4w9WgXcQ'', ''kJQP7kiw5Fk'']"
    by (simp only: m(2) three_stored_example[OF readonly_env_valid]) simp
  have 4: "fst (main readonly_env ?args fresh_proc) = 1"
    using w by (simp only: m(1)) simp
  from 1 2 3 4 show ?thesis by simp
qed

text \<open>
  Claim C3, amended. Let the command line select a mode, the database initialise and the
  fetch phase return a list of records. Then the store loop attempts every record in
  order: the store after the run is the one before it with every valid record upserted,
  in order, the records for which \<open>storeVideo\<close> fails being skipped and logged as failed.
  The exit code is 0 when at least one record was fetched and no file that the command
  line asks for fails to be written, and 1 otherwise. For three records of which the first
  and the third are valid and the second is not, the store is the one before the run with
  the first and then the third record upserted; the row of the third record is in the
  table, and so is the row of the first unless the third has the same key.
\<close>

theorem store_failure_not_fatal:
  assumes "opts = parseArgs e args no_options"
    and "given (disease opts) \<or> given (videoId opts)"
    and "initializeDatabase e s = (Inr (), s1)"
    and "fetch_videos e opts s1 = (Inr found, s2)"
  shows "db (snd (main e args s)) = foldl (\<lambda>d v. store_or_skip e v d) (db s) found \<and>
         fst (main e args s) = (if found = [] \<or> write_fails e opts then 1 else 0) \<and>
         (\<exists>out. trace (snd (main e args s)) =
            trace s2 @ concat (map (store_events e) found) @ out) \<and>
         (\<forall>v1 v2 v3 t1 t3.
            found = [v1, v2, v3] \<and> valid_metadata e v1 \<and> title v1 = Some t1 \<and>
            \<not> valid_metadata e v2 \<and> valid_metadata e v3 \<and> title v3 = Some t3 \<longrightarrow>
              db (snd (main e args s)) =
                put_video (video_params v3 t3) (put_video (video_params v1 t1) (db s)) \<and>
              video_params v3 t3 \<in> set (videos (db (snd (main e args s)))) \<and>
              (take 255 (id' v1) \<noteq> take 255 (id' v3) \<longrightarrow>
                 video_params v1 t1 \<in> set (videos (db (snd (main e args s))))))"
proof -
  note m = main_stores[OF assms]
  have three: "db (snd (main e args s)) =
                put_video (video_params v3 t3) (put_video (video_params v1 t1) (db s)) \<and>
              video_params v3 t3 \<in> set (videos (db (snd (main e args s)))) \<and>
              (take 255 (id' v1) \<noteq> take 255 (id' v3) \<longrightarrow>
                 video_params v1 t1 \<in> set (videos (db (snd (main e args s)))))"
    if h: "found = [v1, v2, v3] \<and> valid_metadata e v1 \<and> title v1 = Some t1 \<and>
            \<not> valid_metadata e v2 \<and> valid_metadata e v3 \<and> title v3 = Some t3"
    for v1 v2 v3 t1 t3
  proof -
    have d: "db (snd (main e args s)) =
        put_video (video_params v3 t3) (put_video (video_params v1 t1) (db s))"
      using h by (simp add: m(2) store_or_skip_def split: option.splits)
    have r3: "video_params v3 t3 \<in> set (videos (db (snd (main e args s))))"
      by (simp only: d put_video_has_row)
    have r1: "video_params v1 t1 \<in> set (videos (db (snd (main e args s))))"
      if "take 255 (id' v1) \<noteq> take 255 (id' v3)"
    proof -
      have ne: "video_id (video_params v1 t1) \<noteq> video_id (video_params v3 t3)"
        using that by (simp add: video_params_def)
      have "video_params v1 t1 \<in> set (videos (put_video (video_params v3 t3)
          (put_video (video_params v1 t1) (db s))))"
        using put_video_has_row[of "video_params v1 t1" "db s"] ne by (rule put_video_keeps)
      then show ?thesis by (simp only: d)
    qed
    from d r3 r1 show ?thesis by blast
  qed
  from m three show ?thesis by blast
qed

text \<open>
  The theorem for \<open>--disease flu\<close> in the world whose search returns three records, the
  second without a title: exit code 0, and the table holds the first and the third.
\<close>

theorem store_failure_not_fatal_witness:
  "\<not> valid_metadata search_env (example_video ''9bZkp7q19f0'' None (Some 60)) \<and>
   \<not> write_fails search_env (parseArgs search_env [''--disease'', ''flu''] no_options) \<and>
   fst (main search_env [''--disease'', ''flu''] fresh_proc) = 0 \<and>
   map video_id (videos (db (snd (main search_env [''--disease'', ''flu''] fresh_proc)))) =
     [''dQw4w9WgXcQ'', ''kJQP7kiw5Fk''] \<and>
   map title_c (videos (db (snd (main search_env [''--disease'', ''flu''] fresh_proc)))) =
     [''One'', ''Three'']"
proof -
  let ?opts = "parseArgs search_env [''--disease'', ''flu''] no_options"
  have g: "given (disease ?opts) \<or> given (videoId ?opts)"
    by (simp add: no_options_def given_def)
  have w: "\<not> write_fails search_env ?opts"
    by (simp add: write_fails_def no_options_def given_def)
  note i = initializeDatabase_fresh[OF example_envs_connect(3)]
  from store_failure_not_fatal[OF refl g i fetch_search_example] w
  have "fst (main search_env [''--disease'', ''flu''] fresh_proc) = 0"
    and "db (snd (main search_env [''--disease'', ''flu''] fresh_proc)) =
      foldl (\<lambda>d v. store_or_skip search_env v d) (db fresh_proc)
        [example_video ''dQw4w9WgXcQ'' (Some ''One'') (Some 212),
         example_video ''9bZkp7q19f0'' None (Some 60),
         example_video ''kJQP7kiw5Fk'' (Some ''Three'') None]"
    by simp_all
  then show ?thesis
    using search_env_valid(2) w
    by (simp only: three_stored_example[OF refl]) simp
qed

end
